theory Spec2Isabelle
  imports Complex_Main "HOL-Library.Word"
begin

section \<open>The sensor sketch \<^verbatim>\<open>code.ino\<close>\<close>

text \<open>
  The sketch runs on an ESP32: it reads two DHT11 sensors and a microphone, drives three
  LEDs from fixed thresholds and posts the readings as JSON over Wi-Fi. It keeps three
  globals (\<^verbatim>\<open>temperature\<close>, \<^verbatim>\<open>humidity\<close>, \<^verbatim>\<open>soundValue\<close>); everything else it does is a
  call into the Arduino core or a library. The model keeps the globals in a record, records
  every library call that touches the outside world as an event of a trace, and takes what
  those calls return (sensor values, the Wi-Fi status, the HTTP response) as arguments.
\<close>

subsection \<open>IEEE 754 values\<close>

text \<open>
  A C \<^verbatim>\<open>float\<close> is a 32-bit pattern and a \<^verbatim>\<open>double\<close> a 64-bit pattern. \<open>decode32\<close> and
  \<open>decode64\<close> read the sign, the biased exponent and the fraction. Every finite value is a
  whole multiple of the smallest subnormal (\<open>2 ^ 149\<close> or \<open>2 ^ 1074\<close> in the denominator).
\<close>

type_synonym float32 = "32 word"
type_synonym float64 = "64 word"

datatype fpval = NaN | NegInf | Fin real | PosInf

definition decode32 :: "float32 \<Rightarrow> fpval" where
  "decode32 w =
     (let s = bit w 31;
          e = unat (take_bit 8 (drop_bit 23 w));
          m = unat (take_bit 23 w)
      in if e = 255 then (if m \<noteq> 0 then NaN else if s then NegInf else PosInf)
         else Fin ((if s then - 1 else 1) *
                   (if e = 0 then real m else real (2 ^ 23 + m) * 2 ^ (e - 1)) / 2 ^ 149))"

definition decode64 :: "float64 \<Rightarrow> fpval" where
  "decode64 w =
     (let s = bit w 63;
          e = unat (take_bit 11 (drop_bit 52 w));
          m = unat (take_bit 52 w)
      in if e = 2047 then (if m \<noteq> 0 then NaN else if s then NegInf else PosInf)
         else Fin ((if s then - 1 else 1) *
                   (if e = 0 then real m else real (2 ^ 52 + m) * 2 ^ (e - 1)) / 2 ^ 1074))"

text \<open>
  The C comparisons \<^verbatim>\<open>>=\<close> and \<^verbatim>\<open>>\<close> on floating-point values: false as soon as one side
  is a NaN, the usual order otherwise.
\<close>

fun fp_ge :: "fpval \<Rightarrow> fpval \<Rightarrow> bool" where
  "fp_ge NaN _ = False"
| "fp_ge _ NaN = False"
| "fp_ge PosInf _ = True"
| "fp_ge _ NegInf = True"
| "fp_ge NegInf _ = False"
| "fp_ge _ PosInf = False"
| "fp_ge (Fin a) (Fin b) = (b \<le> a)"

fun fp_gt :: "fpval \<Rightarrow> fpval \<Rightarrow> bool" where
  "fp_gt NaN _ = False"
| "fp_gt _ NaN = False"
| "fp_gt NegInf _ = False"
| "fp_gt _ PosInf = False"
| "fp_gt PosInf _ = True"
| "fp_gt _ NegInf = True"
| "fp_gt (Fin a) (Fin b) = (b < a)"

text \<open>
  In \<^verbatim>\<open>temperature >= 25.6\<close> the left side is a \<^verbatim>\<open>float\<close> and the literal a \<^verbatim>\<open>double\<close>: the
  float is converted to double, which changes no value, and the two are compared.
\<close>

definition float_ge_double :: "float32 \<Rightarrow> float64 \<Rightarrow> bool" where
  "float_ge_double x c = fp_ge (decode32 x) (decode64 c)"

definition float_gt_double :: "float32 \<Rightarrow> float64 \<Rightarrow> bool" where
  "float_gt_double x c = fp_gt (decode32 x) (decode64 c)"

text \<open>The two double literals of \<^verbatim>\<open>controlLEDs\<close>, as the compiler rounds them.\<close>

definition lit_25_6 :: float64 where
  "lit_25_6 = 0x403999999999999A"

definition lit_40_0 :: float64 where
  "lit_40_0 = 0x4044000000000000"

subsection \<open>Pins, globals and the trace of library calls\<close>

definition TEMP_SENSOR_PIN :: nat where "TEMP_SENSOR_PIN = 4"
definition HUM_SENSOR_PIN :: nat where "HUM_SENSOR_PIN = 5"
definition SOUND_SENSOR_PIN :: nat where "SOUND_SENSOR_PIN = 34"
definition TEMP_LED_PIN :: nat where "TEMP_LED_PIN = 18"
definition HUM_LED_PIN :: nat where "HUM_LED_PIN = 32"
definition SOUND_LED_PIN :: nat where "SOUND_LED_PIN = 33"

definition ssid :: string where "ssid = ''ASHRAF123''"
definition password :: string where "password = ''123456789123''"
definition serverURL :: string where "serverURL = ''http://192.168.137.1:5000/data''"

datatype level = LOW | HIGH

text \<open>\<^verbatim>\<open>wl_status_t\<close> of the Wi-Fi library; the sketch only compares with \<^verbatim>\<open>WL_CONNECTED\<close>.\<close>

datatype wl_status_t =
    WL_IDLE_STATUS | WL_NO_SSID_AVAIL | WL_SCAN_COMPLETED | WL_CONNECTED
  | WL_CONNECT_FAILED | WL_CONNECTION_LOST | WL_DISCONNECTED | WL_NO_SHIELD

text \<open>The struct \<^verbatim>\<open>TempAndHumidity\<close> that \<^verbatim>\<open>getTempAndHumidity\<close> returns.\<close>

record TempAndHumidity =
  th_temperature :: float32
  th_humidity :: float32

text \<open>
  One event per library call with an effect outside the sketch, with the arguments of the
  call. \<open>SerialPrintFloat x 1\<close> is \<^verbatim>\<open>Serial.print(x, 1)\<close>.
\<close>

datatype event =
    SerialBegin nat
  | SerialPrint string
  | SerialPrintln string
  | SerialPrintFloat float32 nat
  | SerialPrintlnInt "32 word"
  | SerialPrintlnIP "32 word"
  | DhtSetup nat
  | DhtRead nat
  | AnalogRead nat
  | PinModeOutput nat
  | DigitalWrite nat level
  | WiFiBegin string string
  | WiFiStatus
  | WiFiLocalIP
  | HttpBegin string
  | HttpAddHeader string string
  | HttpPost string
  | HttpGetString
  | HttpEnd
  | Delay nat

record state =
  temperature :: float32
  humidity :: float32
  soundValue :: "32 word"
  pins :: "nat \<Rightarrow> level"
  trace :: "event list"

definition emit :: "event list \<Rightarrow> state \<Rightarrow> state" where
  "emit es s = s\<lparr>trace := trace s @ es\<rparr>"

subsection \<open>Reading the sensors\<close>

text \<open>
  \<^verbatim>\<open>readDHTData\<close> asks each sensor object once and keeps the temperature of the first
  answer and the humidity of the second. \<^verbatim>\<open>analogRead\<close> returns a \<^verbatim>\<open>uint16_t\<close>, stored in an
  \<^verbatim>\<open>int\<close>.
\<close>

definition readDHTData :: "TempAndHumidity \<Rightarrow> TempAndHumidity \<Rightarrow> state \<Rightarrow> state" where
  "readDHTData tempData humData s =
     (let s1 = emit [DhtRead TEMP_SENSOR_PIN] s;
          s2 = emit [DhtRead HUM_SENSOR_PIN] s1;
          s3 = s2\<lparr>temperature := th_temperature tempData\<rparr>
      in s3\<lparr>humidity := th_humidity humData\<rparr>)"

definition readSoundLevel :: "16 word \<Rightarrow> state \<Rightarrow> state" where
  "readSoundLevel a s = (emit [AnalogRead SOUND_SENSOR_PIN] s)\<lparr>soundValue := ucast a\<rparr>"

subsection \<open>The LEDs\<close>

definition digitalWrite :: "nat \<Rightarrow> level \<Rightarrow> state \<Rightarrow> state" where
  "digitalWrite p v s = (emit [DigitalWrite p v] s)\<lparr>pins := (pins s)(p := v)\<rparr>"

definition controlLEDs :: "state \<Rightarrow> state" where
  "controlLEDs s =
     (let s1 = digitalWrite TEMP_LED_PIN
                 (if float_ge_double (temperature s) lit_25_6 then HIGH else LOW) s;
          s2 = digitalWrite HUM_LED_PIN
                 (if float_gt_double (humidity s1) lit_40_0 then HIGH else LOW) s1
      in digitalWrite SOUND_LED_PIN
           (if 200 \<le> sint (soundValue s2) then HIGH else LOW) s2)"

subsection \<open>Rendering numbers as text\<close>

text \<open>
  The class \<^verbatim>\<open>String\<close> belongs to the Arduino core for the ESP32, not to the sketch.
  \<^verbatim>\<open>String(int)\<close> writes the value in base ten, with a minus sign for a negative one.
\<close>

definition digit_char :: "nat \<Rightarrow> char" where
  "digit_char d = char_of (48 + d)"

fun dec_nat :: "nat \<Rightarrow> string" where
  "dec_nat n = (if n < 10 then [digit_char n] else dec_nat (n div 10) @ [digit_char (n mod 10)])"

declare dec_nat.simps [simp del]

definition String_int :: "32 word \<Rightarrow> string" where
  "String_int v =
     (if sint v < 0 then CHR ''-'' # dec_nat (nat (- sint v)) else dec_nat (nat (sint v)))"

text \<open>
  \<^verbatim>\<open>String(float, decimalPlaces)\<close> is the core's as well: it hands the value to the core's
  \<^verbatim>\<open>dtostrf\<close>, which starts with two special cases: a NaN is written \<^verbatim>\<open>nan\<close> and an infinity
  \<^verbatim>\<open>inf\<close>. For a finite value it produces the digits in double arithmetic; that loop is not
  modelled, it is the argument \<open>digits\<close> (called with the value and the number of decimal
  places), and what a property needs of it is stated as a hypothesis.
\<close>

definition String_float :: "(float32 \<Rightarrow> nat \<Rightarrow> string) \<Rightarrow> float32 \<Rightarrow> nat \<Rightarrow> string" where
  "String_float digits x decimalPlaces =
     (case decode32 x of
        NaN \<Rightarrow> ''nan''
      | NegInf \<Rightarrow> ''inf''
      | PosInf \<Rightarrow> ''inf''
      | Fin _ \<Rightarrow> digits x decimalPlaces)"

subsection \<open>The reporter\<close>

text \<open>The string that \<^verbatim>\<open>sendDataToPythonServer\<close> builds up in \<^verbatim>\<open>payload\<close>, line by line.\<close>

definition payload :: "(float32 \<Rightarrow> nat \<Rightarrow> string) \<Rightarrow> state \<Rightarrow> string" where
  "payload digits s =
     (let p0 = ''{'';
          p1 = p0 @ (''\"temperature\":'' @ String_float digits (temperature s) 1 @ '','');
          p2 = p1 @ (''\"humidity\":'' @ String_float digits (humidity s) 1 @ '','');
          p3 = p2 @ (''\"sound\":'' @ String_int (soundValue s))
      in p3 @ ''}'')"

text \<open>
  \<open>status\<close> is what \<^verbatim>\<open>WiFi.status()\<close> returns, \<open>httpResponseCode\<close> what \<^verbatim>\<open>http.POST\<close>
  returns and \<open>response\<close> what \<^verbatim>\<open>http.getString()\<close> returns. The function is \<^verbatim>\<open>void\<close> and has
  no failing path, so the model returns the state.
\<close>

definition sendDataToPythonServer ::
  "(float32 \<Rightarrow> nat \<Rightarrow> string) \<Rightarrow> wl_status_t \<Rightarrow> 32 word \<Rightarrow> string \<Rightarrow> state \<Rightarrow> state" where
  "sendDataToPythonServer digits status httpResponseCode response s =
     (let s0 = emit [WiFiStatus] s
      in if status = WL_CONNECTED then
           (let body = payload digits s0;
                s1 = emit [HttpBegin serverURL] s0;
                s2 = emit [HttpAddHeader ''Content-Type'' ''application/json''] s1;
                s3 = emit [HttpPost body] s2;
                s4 = (if 0 < sint httpResponseCode
                      then emit [HttpGetString, SerialPrint ''Response: '', SerialPrintln response] s3
                      else emit [SerialPrint ''Error sending data: '',
                                 SerialPrintlnInt httpResponseCode] s3)
            in emit [HttpEnd] s4)
         else emit [SerialPrintln ''Wi-Fi disconnected. Cannot send data.''] s0)"

subsection \<open>The main loop\<close>

text \<open>What one call of \<^verbatim>\<open>loop\<close> receives from the outside.\<close>

record cycle_input =
  tempData :: TempAndHumidity
  humData :: TempAndHumidity
  analog :: "16 word"
  wifi_status :: wl_status_t
  post_code :: "32 word"
  post_response :: string

text \<open>The text between the two printed values holds the four bytes the source file has there.\<close>

definition loop :: "(float32 \<Rightarrow> nat \<Rightarrow> string) \<Rightarrow> cycle_input \<Rightarrow> state \<Rightarrow> state" where
  "loop digits i s =
     (let s1 = readDHTData (tempData i) (humData i) s;
          s2 = readSoundLevel (analog i) s1;
          s3 = controlLEDs s2;
          s4 = emit [SerialPrint ''Temperature: '',
                     SerialPrintFloat (temperature s3) 1,
                     SerialPrint ('' '' @ [CHR 0xC3, CHR 0x82, CHR 0xC2, CHR 0xB0] @ ''C || Humidity: ''),
                     SerialPrintFloat (humidity s3) 1,
                     SerialPrint '' % || Sound Level: '',
                     SerialPrintlnInt (soundValue s3)] s3;
          s5 = sendDataToPythonServer digits (wifi_status i) (post_code i) (post_response i) s4
      in emit [Delay 15000] s5)"

text \<open>
  The Arduino core calls \<^verbatim>\<open>loop\<close> again and again, and nothing in the sketch stops it. The
  core is not part of the sketch: \<open>cycles\<close> runs one call of \<^verbatim>\<open>loop\<close> for each element of a list
  of inputs, so a run of the device is the sequence of states \<open>cycles digits (take n is) s\<close>.
\<close>

fun cycles :: "(float32 \<Rightarrow> nat \<Rightarrow> string) \<Rightarrow> cycle_input list \<Rightarrow> state \<Rightarrow> state" where
  "cycles digits [] s = s"
| "cycles digits (i # is) s = cycles digits is (loop digits i s)"

subsection \<open>Connecting\<close>

text \<open>
  \<open>status k\<close> is what the \<open>k\<close>-th call of \<^verbatim>\<open>WiFi.status()\<close> returns. The \<^verbatim>\<open>while\<close> loop may
  run forever; the model returns \<open>None\<close> exactly then.
\<close>

partial_function (option) wait_connected ::
  "(nat \<Rightarrow> wl_status_t) \<Rightarrow> nat \<Rightarrow> state \<Rightarrow> state option" where
  "wait_connected status k s =
     (if status k \<noteq> WL_CONNECTED
      then wait_connected status (Suc k) (emit [WiFiStatus, Delay 500, SerialPrint ''.''] s)
      else Some (emit [WiFiStatus] s))"

definition connectToWiFi :: "(nat \<Rightarrow> wl_status_t) \<Rightarrow> 32 word \<Rightarrow> state \<Rightarrow> state option" where
  "connectToWiFi status ip s =
     (case wait_connected status 0
             (emit [SerialPrint ''Connecting to Wi-Fi'', WiFiBegin ssid password] s) of
        None \<Rightarrow> None
      | Some s' \<Rightarrow>
          Some (emit [SerialPrintln (CHR 0x0A # ''Wi-Fi connected!''),
                      SerialPrint ''IP Address: '', WiFiLocalIP, SerialPrintlnIP ip] s'))"

definition initializeDHT :: "state \<Rightarrow> state" where
  "initializeDHT s =
     emit [DhtSetup TEMP_SENSOR_PIN, DhtSetup HUM_SENSOR_PIN,
           SerialPrintln ''DHT11 Sensors Initialized.''] s"

definition arduino_setup :: "(nat \<Rightarrow> wl_status_t) \<Rightarrow> 32 word \<Rightarrow> state \<Rightarrow> state option" where
  "arduino_setup status ip s =
     (case connectToWiFi status ip (emit [SerialBegin 115200] s) of
        None \<Rightarrow> None
      | Some s1 \<Rightarrow>
          Some (emit [PinModeOutput TEMP_LED_PIN, PinModeOutput HUM_LED_PIN,
                      PinModeOutput SOUND_LED_PIN] (initializeDHT s1)))"

section \<open>JSON as the server reads it\<close>

text \<open>
  The sketch sends its body with the header \<^verbatim>\<open>Content-Type: application/json\<close>. The reader
  below follows the JSON grammar (RFC 8259) for an object whose members are numbers:
  optional white space between tokens, member names in double quotes, and numbers made of an
  optional minus sign, an integer part without leading zeros, an optional fraction and an
  optional exponent. It returns the members in order, each number as the text it was written
  with, and \<open>None\<close> for a text that is not such an object. A member name with an escape
  sequence, and a member that is not a number, are outside what it reads.
\<close>

definition is_ws :: "char \<Rightarrow> bool" where
  "is_ws c = (c = CHR '' '' \<or> c = CHR 0x09 \<or> c = CHR 0x0A \<or> c = CHR 0x0D)"

definition is_digit :: "char \<Rightarrow> bool" where
  "is_digit c = (48 \<le> (of_char c :: nat) \<and> (of_char c :: nat) \<le> 57)"

definition skip_ws :: "string \<Rightarrow> string" where
  "skip_ws cs = dropWhile is_ws cs"

definition lex_int_part :: "string \<Rightarrow> (string \<times> string) option" where
  "lex_int_part cs =
     (case cs of
        [] \<Rightarrow> None
      | c # r \<Rightarrow>
          if c = CHR ''0'' then Some ([c], r)
          else if is_digit c then Some (c # takeWhile is_digit r, dropWhile is_digit r)
          else None)"

definition lex_frac_part :: "string \<Rightarrow> (string \<times> string) option" where
  "lex_frac_part cs =
     (case cs of
        [] \<Rightarrow> Some ([], cs)
      | c # r \<Rightarrow>
          if c = CHR ''.'' then
            (if takeWhile is_digit r = [] then None
             else Some (c # takeWhile is_digit r, dropWhile is_digit r))
          else Some ([], cs))"

definition lex_exp_sign :: "string \<Rightarrow> string \<times> string" where
  "lex_exp_sign cs =
     (case cs of
        [] \<Rightarrow> ([], cs)
      | c # r \<Rightarrow> if c = CHR ''+'' \<or> c = CHR ''-'' then ([c], r) else ([], cs))"

definition lex_exp_part :: "string \<Rightarrow> (string \<times> string) option" where
  "lex_exp_part cs =
     (case cs of
        [] \<Rightarrow> Some ([], cs)
      | c # r \<Rightarrow>
          if c = CHR ''e'' \<or> c = CHR ''E'' then
            (case lex_exp_sign r of
               (sg, r') \<Rightarrow>
                 if takeWhile is_digit r' = [] then None
                 else Some (c # sg @ takeWhile is_digit r', dropWhile is_digit r'))
          else Some ([], cs))"

definition lex_minus :: "string \<Rightarrow> string \<times> string" where
  "lex_minus cs =
     (case cs of
        [] \<Rightarrow> ([], cs)
      | c # r \<Rightarrow> if c = CHR ''-'' then ([c], r) else ([], cs))"

definition lex_number :: "string \<Rightarrow> (string \<times> string) option" where
  "lex_number cs =
     (case lex_minus cs of
        (sg, r0) \<Rightarrow>
          (case lex_int_part r0 of
             None \<Rightarrow> None
           | Some (ip, r1) \<Rightarrow>
               (case lex_frac_part r1 of
                  None \<Rightarrow> None
                | Some (fp, r2) \<Rightarrow>
                    (case lex_exp_part r2 of
                       None \<Rightarrow> None
                     | Some (ep, r3) \<Rightarrow> Some (sg @ ip @ fp @ ep, r3)))))"

definition plain_char :: "char \<Rightarrow> bool" where
  "plain_char c = (c \<noteq> CHR 0x22 \<and> c \<noteq> CHR 0x5C \<and> 32 \<le> (of_char c :: nat))"

definition lex_string :: "string \<Rightarrow> (string \<times> string) option" where
  "lex_string cs =
     (case cs of
        [] \<Rightarrow> None
      | c # r \<Rightarrow>
          if c = CHR 0x22 then
            (case dropWhile plain_char r of
               [] \<Rightarrow> None
             | d # r' \<Rightarrow> if d = CHR 0x22 then Some (takeWhile plain_char r, r') else None)
          else None)"

definition parse_member :: "string \<Rightarrow> ((string \<times> string) \<times> string) option" where
  "parse_member cs =
     (case lex_string (skip_ws cs) of
        None \<Rightarrow> None
      | Some (k, r) \<Rightarrow>
          (case skip_ws r of
             [] \<Rightarrow> None
           | c # r' \<Rightarrow>
               if c = CHR '':'' then
                 (case lex_number (skip_ws r') of
                    None \<Rightarrow> None
                  | Some (v, r'') \<Rightarrow> Some ((k, v), skip_ws r''))
               else None))"

lemma length_skip_ws: "length (skip_ws cs) \<le> length cs"
  by (simp add: skip_ws_def length_dropWhile_le)

lemma lex_minus_shorter: "lex_minus cs = (sg, r) \<Longrightarrow> length r \<le> length cs"
  by (auto simp: lex_minus_def split: list.splits if_splits)

lemma lex_int_part_shorter: "lex_int_part cs = Some (ip, r) \<Longrightarrow> length r \<le> length cs"
  by (auto simp: lex_int_part_def le_SucI length_dropWhile_le split: list.splits if_splits)

lemma lex_frac_part_shorter: "lex_frac_part cs = Some (fp, r) \<Longrightarrow> length r \<le> length cs"
  by (auto simp: lex_frac_part_def le_SucI length_dropWhile_le split: list.splits if_splits)

lemma lex_exp_sign_shorter: "lex_exp_sign cs = (sg, r) \<Longrightarrow> length r \<le> length cs"
  by (auto simp: lex_exp_sign_def split: list.splits if_splits)

lemma lex_exp_part_shorter: "lex_exp_part cs = Some (ep, r) \<Longrightarrow> length r \<le> length cs"
proof -
  assume a: "lex_exp_part cs = Some (ep, r)"
  show ?thesis
  proof (cases cs)
    case Nil
    with a show ?thesis by (simp add: lex_exp_part_def)
  next
    case (Cons c t)
    obtain sg r' where sr: "lex_exp_sign t = (sg, r')" by (cases "lex_exp_sign t")
    have "length (dropWhile is_digit r') \<le> length r'" by (rule length_dropWhile_le)
    moreover have "length r' \<le> length t" using sr by (rule lex_exp_sign_shorter)
    ultimately show ?thesis
      using a Cons sr by (auto simp: lex_exp_part_def split: if_splits)
  qed
qed

lemma lex_number_shorter: "lex_number cs = Some (v, r) \<Longrightarrow> length r \<le> length cs"
  unfolding lex_number_def
  by (auto split: prod.splits option.splits
      dest!: lex_minus_shorter lex_int_part_shorter lex_frac_part_shorter lex_exp_part_shorter)

lemma lex_string_shorter: "lex_string cs = Some (k, r) \<Longrightarrow> length r < length cs"
proof -
  assume a: "lex_string cs = Some (k, r)"
  then obtain c t where cs: "cs = c # t" by (cases cs) (simp_all add: lex_string_def)
  with a obtain d where "dropWhile plain_char t = d # r"
    by (auto simp: lex_string_def split: list.splits if_splits)
  then have "Suc (length r) \<le> length t"
    using length_dropWhile_le [of plain_char t] by simp
  with cs show ?thesis by simp
qed

lemma parse_member_shorter: "parse_member cs = Some (kv, r) \<Longrightarrow> length r < length cs"
proof -
  assume a: "parse_member cs = Some (kv, r)"
  then obtain k r1 where k: "lex_string (skip_ws cs) = Some (k, r1)"
    by (auto simp: parse_member_def split: option.splits)
  with a obtain c r2 where c: "skip_ws r1 = c # r2"
    by (auto simp: parse_member_def split: list.splits)
  with a k obtain v r3 where v: "lex_number (skip_ws r2) = Some (v, r3)" and r: "r = skip_ws r3"
    by (auto simp: parse_member_def split: option.splits if_splits)
  have "length r \<le> length r3" using r length_skip_ws by simp
  also have "\<dots> \<le> length (skip_ws r2)" using v by (rule lex_number_shorter)
  also have "\<dots> \<le> length r2" by (rule length_skip_ws)
  also have "\<dots> \<le> length (skip_ws r1)" using c by simp
  also have "\<dots> \<le> length r1" by (rule length_skip_ws)
  also have "\<dots> < length (skip_ws cs)" using k by (rule lex_string_shorter)
  also have "\<dots> \<le> length cs" by (rule length_skip_ws)
  finally show ?thesis .
qed

function parse_members :: "string \<Rightarrow> (string \<times> string) list option" where
  "parse_members cs =
     (case parse_member cs of
        None \<Rightarrow> None
      | Some (kv, r) \<Rightarrow>
          (case r of
             [] \<Rightarrow> None
           | c # r' \<Rightarrow>
               if c = CHR '','' then
                 (case parse_members r' of None \<Rightarrow> None | Some ms \<Rightarrow> Some (kv # ms))
               else if c = CHR ''}'' then (if skip_ws r' = [] then Some [kv] else None)
               else None))"
  by pat_completeness auto
termination
proof (relation "measure length")
  show "wf (measure length)" by simp
next
  fix cs x2 kv r c r'
  assume "parse_member cs = Some x2" "(kv, r) = x2" "r = c # r'"
  then have "length (c # r') < length cs"
    using parse_member_shorter [of cs kv r] by simp
  then show "(r', cs) \<in> measure length" by simp
qed

declare parse_members.simps [simp del]

definition parse_json_object :: "string \<Rightarrow> (string \<times> string) list option" where
  "parse_json_object cs =
     (case skip_ws cs of
        [] \<Rightarrow> None
      | c # r \<Rightarrow>
          if c = CHR ''{'' then
            (case skip_ws r of
               [] \<Rightarrow> None
             | d # r' \<Rightarrow>
                 if d = CHR ''}'' then (if skip_ws r' = [] then Some [] else None)
                 else parse_members r)
          else None)"

text \<open>
  Two shapes of number text: an integer (what \<^verbatim>\<open>String(int)\<close> is expected to write) and a
  number with exactly one digit after the decimal point. \<open>int_of_lexeme\<close> is the value of an
  integer text.
\<close>

definition json_int_lexeme :: "string \<Rightarrow> bool" where
  "json_int_lexeme s =
     (case lex_minus s of
        (sg, u) \<Rightarrow> u = ''0'' \<or> (u \<noteq> [] \<and> hd u \<noteq> CHR ''0'' \<and> list_all is_digit u))"

definition one_decimal :: "string \<Rightarrow> bool" where
  "one_decimal s =
     (case lex_minus s of
        (sg, u) \<Rightarrow>
          (case dropWhile is_digit u of
             [p, d] \<Rightarrow>
               p = CHR ''.'' \<and> is_digit d \<and>
               (takeWhile is_digit u = ''0'' \<or> (takeWhile is_digit u \<noteq> [] \<and> hd u \<noteq> CHR ''0''))
           | _ \<Rightarrow> False))"

definition digit_val :: "char \<Rightarrow> nat" where
  "digit_val c = of_char c - 48"

definition nat_of_digits :: "string \<Rightarrow> nat" where
  "nat_of_digits ds = foldl (\<lambda>n c. 10 * n + digit_val c) 0 ds"

definition int_of_lexeme :: "string \<Rightarrow> int" where
  "int_of_lexeme s =
     (case lex_minus s of
        (sg, u) \<Rightarrow> if sg = [] then int (nat_of_digits u) else - int (nat_of_digits u))"

section \<open>Vocabulary of the properties\<close>

text \<open>
  The globals as their initialisers leave them, before \<^verbatim>\<open>setup\<close> runs.
\<close>

definition boot_state :: state where
  "boot_state = \<lparr>temperature = 0, humidity = 0, soundValue = 0, pins = (\<lambda>p. LOW), trace = []\<rparr>"

text \<open>
  \<open>new_events s s'\<close> is what a run from \<open>s\<close> to \<open>s'\<close> added to the trace. The calls on the
  \<^verbatim>\<open>HTTPClient\<close> object are the network calls of the reporter; \<open>connection_open\<close> replays
  a trace and tells whether a request begun with \<^verbatim>\<open>http.begin\<close> is still waiting for its
  \<^verbatim>\<open>http.end\<close>.
\<close>

fun is_http :: "event \<Rightarrow> bool" where
  "is_http (HttpBegin url) = True"
| "is_http (HttpAddHeader k v) = True"
| "is_http (HttpPost body) = True"
| "is_http HttpGetString = True"
| "is_http HttpEnd = True"
| "is_http e = False"

fun is_post :: "event \<Rightarrow> bool" where
  "is_post (HttpPost body) = True"
| "is_post e = False"

definition new_events :: "state \<Rightarrow> state \<Rightarrow> event list" where
  "new_events s s' = drop (length (trace s)) (trace s')"

fun connection_open :: "bool \<Rightarrow> event list \<Rightarrow> bool" where
  "connection_open b [] = b"
| "connection_open b (HttpBegin url # es) = connection_open True es"
| "connection_open b (HttpEnd # es) = connection_open False es"
| "connection_open b (e # es) = connection_open b es"

text \<open>The three indicators, and the six calls on \<^verbatim>\<open>Serial\<close> that print one reading.\<close>

definition leds :: "state \<Rightarrow> level \<times> level \<times> level" where
  "leds s = (pins s TEMP_LED_PIN, pins s HUM_LED_PIN, pins s SOUND_LED_PIN)"

definition log_events :: "float32 \<Rightarrow> float32 \<Rightarrow> 32 word \<Rightarrow> event list" where
  "log_events t h n =
     [SerialPrint ''Temperature: '', SerialPrintFloat t 1,
      SerialPrint ('' '' @ [CHR 0xC3, CHR 0x82, CHR 0xC2, CHR 0xB0] @ ''C || Humidity: ''),
      SerialPrintFloat h 1, SerialPrint '' % || Sound Level: '', SerialPrintlnInt n]"

text \<open>
  \<open>connected_at status k\<close>: the \<open>k\<close>-th poll is the first one that reports an association.
  \<open>connect_events k ip\<close> is what \<^verbatim>\<open>connectToWiFi\<close> does when it returns after \<open>k\<close> failed polls.
\<close>

definition connected_at :: "(nat \<Rightarrow> wl_status_t) \<Rightarrow> nat \<Rightarrow> bool" where
  "connected_at status k = (status k = WL_CONNECTED \<and> (\<forall>j<k. status j \<noteq> WL_CONNECTED))"

definition connect_events :: "nat \<Rightarrow> 32 word \<Rightarrow> event list" where
  "connect_events k ip =
     [SerialPrint ''Connecting to Wi-Fi'', WiFiBegin ssid password] @
     concat (replicate k [WiFiStatus, Delay 500, SerialPrint ''.'']) @
     [WiFiStatus, SerialPrintln (CHR 0x0A # ''Wi-Fi connected!''), SerialPrint ''IP Address: '',
      WiFiLocalIP, SerialPrintlnIP ip]"

text \<open>A reading is finite when it is neither a NaN nor an infinity.\<close>

definition is_finite32 :: "float32 \<Rightarrow> bool" where
  "is_finite32 x = (case decode32 x of Fin v \<Rightarrow> True | _ \<Rightarrow> False)"

subsection \<open>Example inputs\<close>

text \<open>
  Every property below holds for any digit routine. The examples need one to run with:
  \<open>scenario_digits\<close> writes the values 26.0 and 35.0 as the payload of the spec's Scenario A
  shows them, and \<^verbatim>\<open>0.0\<close> for anything else. It stands for no routine of the core.

  The inputs: a reading of 26.0 degrees, 35.0 percent and a sound level of 150; a reading
  after both sensors failed (the DHT library reports a failed read as NaN); a connected cycle
  with that first reading in which the POST fails with code -1; a radio that associates at the
  third poll, and one that never does.
\<close>

definition scenario_digits :: "float32 \<Rightarrow> nat \<Rightarrow> string" where
  "scenario_digits x decimalPlaces =
     (if x = 0x41D00000 then ''26.0'' else if x = 0x420C0000 then ''35.0'' else ''0.0'')"

definition scenario_A :: state where
  "scenario_A = boot_state\<lparr>temperature := 0x41D00000, humidity := 0x420C0000, soundValue := 150\<rparr>"

definition nan_reading :: state where
  "nan_reading = boot_state\<lparr>temperature := 0x7FC00000, humidity := 0x7FC00000, soundValue := 150\<rparr>"

definition scenario_D :: cycle_input where
  "scenario_D =
     \<lparr>tempData = \<lparr>th_temperature = 0x41D00000, th_humidity = 0x42480000\<rparr>,
      humData = \<lparr>th_temperature = 0x41C80000, th_humidity = 0x420C0000\<rparr>,
      analog = 150, wifi_status = WL_CONNECTED, post_code = - 1, post_response = []\<rparr>"

definition joins_at_third_poll :: "nat \<Rightarrow> wl_status_t" where
  "joins_at_third_poll k = (if k < 2 then WL_DISCONNECTED else WL_CONNECTED)"

definition never_joins :: "nat \<Rightarrow> wl_status_t" where
  "never_joins k = WL_CONNECT_FAILED"

section \<open>The thresholds\<close>

text \<open>
  A finite \<^verbatim>\<open>float\<close> of magnitude 16 or more is a whole multiple of \<open>1 / 2 ^ 19\<close>, and no such
  multiple lies between 25.6 and the double that the literal \<^verbatim>\<open>25.6\<close> denotes. So comparing
  a \<^verbatim>\<open>float\<close> with the literal is comparing it with the number 25.6.
\<close>

lemmas pin_defs = TEMP_SENSOR_PIN_def HUM_SENSOR_PIN_def SOUND_SENSOR_PIN_def
  TEMP_LED_PIN_def HUM_LED_PIN_def SOUND_LED_PIN_def

lemma decode32_cases:
  obtains (nan) "decode32 w = NaN" | (ninf) "decode32 w = NegInf" | (pinf) "decode32 w = PosInf"
  | (fin) s e m where
      "decode32 w = Fin ((if s then - 1 else 1) *
          (if e = 0 then real m else real (2 ^ 23 + m) * 2 ^ (e - 1)) / 2 ^ 149)"
      "e < 255" "m < 2 ^ 23"
proof -
  define e where "e = unat (take_bit 8 (drop_bit 23 w))"
  define m where "m = unat (take_bit 23 w)"
  have e: "e < 256"
    unfolding e_def using take_bit_nat_less_exp [of 8 "unat (drop_bit 23 w)"]
    by (simp add: unsigned_take_bit_eq)
  have m: "m < 2 ^ 23"
    unfolding m_def using take_bit_nat_less_exp [of 23 "unat w"]
    by (simp add: unsigned_take_bit_eq)
  show thesis
  proof (cases "e = 255")
    case True
    then have "decode32 w = (if m \<noteq> 0 then NaN else if bit w 31 then NegInf else PosInf)"
      by (simp add: decode32_def Let_def e_def [symmetric] m_def [symmetric])
    then show thesis
      using nan ninf pinf by (cases "m = 0"; cases "bit w 31"; simp)
  next
    case False
    with e have "e < 255" by simp
    moreover have "decode32 w = Fin ((if bit w 31 then - 1 else 1) *
          (if e = 0 then real m else real (2 ^ 23 + m) * 2 ^ (e - 1)) / 2 ^ 149)"
      using False by (simp add: decode32_def Let_def e_def [symmetric] m_def [symmetric])
    ultimately show thesis using fin m by blast
  qed
qed

lemma small_exponent_below_16:
  fixes e m :: nat
  assumes "e \<le> 130" "m < 2 ^ 23"
  shows "(if e = 0 then real m else real (2 ^ 23 + m) * 2 ^ (e - 1)) / 2 ^ 149 < 16"
proof -
  have a: "(if e = 0 then real m else real (2 ^ 23 + m) * 2 ^ (e - 1)) \<le> real (2 ^ 23 + m) * 2 ^ 129"
  proof (cases "e = 0")
    case True
    have "real m \<le> real (2 ^ 23 + m) * 1" by simp
    also have "\<dots> \<le> real (2 ^ 23 + m) * 2 ^ 129"
      by (rule mult_left_mono) simp_all
    finally show ?thesis using True by simp
  next
    case False
    have "(2::real) ^ (e - 1) \<le> 2 ^ 129"
      using assms(1) by (intro power_increasing) simp_all
    then have "real (2 ^ 23 + m) * 2 ^ (e - 1) \<le> real (2 ^ 23 + m) * 2 ^ 129"
      by (intro mult_left_mono) simp_all
    then show ?thesis using False by simp
  qed
  have "real (2 ^ 23 + m) < 2 ^ 24"
    using assms(2) by simp
  then have "real (2 ^ 23 + m) * 2 ^ 129 < 2 ^ 24 * 2 ^ 129"
    by (intro mult_strict_right_mono) simp_all
  with a have "(if e = 0 then real m else real (2 ^ 23 + m) * 2 ^ (e - 1)) < 2 ^ 24 * 2 ^ 129"
    by linarith
  then have "(if e = 0 then real m else real (2 ^ 23 + m) * 2 ^ (e - 1)) / 2 ^ 149 < 2 ^ 24 * 2 ^ 129 / 2 ^ 149"
    by (intro divide_strict_right_mono) simp_all
  then show ?thesis by simp
qed

lemma large_exponent_grid:
  fixes e m :: nat
  assumes "131 \<le> e"
  shows "\<exists>n::nat. (if e = 0 then real m else real (2 ^ 23 + m) * 2 ^ (e - 1)) / 2 ^ 149 = real n / 2 ^ 19"
proof -
  define k where "k = e - 131"
  have k: "e - 1 = 130 + k"
    using assms by (simp add: k_def)
  have "e \<noteq> 0" using assms by simp
  then have "(if e = 0 then real m else real (2 ^ 23 + m) * 2 ^ (e - 1)) / 2 ^ 149
      = real (2 ^ 23 + m) * 2 ^ (e - 1) / 2 ^ 149"
    by (simp only: if_False)
  also have "\<dots> = real ((2 ^ 23 + m) * 2 ^ k) / 2 ^ 19"
    unfolding k by (simp add: power_add)
  finally show ?thesis by (rule exI)
qed

lemma grid_step_over_25_6:
  assumes "256 / 10 \<le> real n / 2 ^ 19"
  shows "7205759403792794 / 2 ^ 48 \<le> real n / 2 ^ 19"
proof -
  have "256 * 2 ^ 19 \<le> real n * 10"
    using assms by (simp add: field_simps)
  then have "256 * 2 ^ 19 \<le> n * 10"
    by (simp flip: of_nat_le_iff)
  then have "13421773 \<le> n" by simp
  then have "(13421773::real) \<le> real n" by simp
  then have "13421773 / 2 ^ 19 \<le> real n / 2 ^ 19"
    by (intro divide_right_mono) simp_all
  moreover have "(7205759403792794::real) / 2 ^ 48 \<le> 13421773 / 2 ^ 19" by simp
  ultimately show ?thesis by linarith
qed

lemma decode64_lit_25_6: "decode64 lit_25_6 = Fin (7205759403792794 / 2 ^ 48)"
  by (simp add: decode64_def lit_25_6_def)

lemma decode64_lit_40_0: "decode64 lit_40_0 = Fin 40"
  by (simp add: decode64_def lit_40_0_def)

lemma float_ge_lit_25_6:
  "float_ge_double x lit_25_6 = fp_ge (decode32 x) (Fin (256 / 10))"
proof (cases x rule: decode32_cases)
  case nan
  then show ?thesis by (simp add: float_ge_double_def decode64_lit_25_6)
next
  case ninf
  then show ?thesis by (simp add: float_ge_double_def decode64_lit_25_6)
next
  case pinf
  then show ?thesis by (simp add: float_ge_double_def decode64_lit_25_6)
next
  case (fin s e m)
  define mag where "mag = (if e = 0 then real m else real (2 ^ 23 + m) * 2 ^ (e - 1)) / 2 ^ 149"
  define v where "v = (if s then - 1 else 1) * mag"
  have dv: "decode32 x = Fin v"
    using fin(1) by (simp add: v_def mag_def)
  have mag0: "0 \<le> mag" by (simp add: mag_def)
  have "(7205759403792794 / 2 ^ 48 \<le> v) = (256 / 10 \<le> v)"
  proof
    assume "7205759403792794 / 2 ^ 48 \<le> v"
    moreover have "(256 / 10 :: real) \<le> 7205759403792794 / 2 ^ 48" by simp
    ultimately show "256 / 10 \<le> v" by linarith
  next
    assume a: "256 / 10 \<le> v"
    have "\<not> s"
    proof
      assume s
      then have "v \<le> 0" using mag0 by (simp add: v_def)
      with a show False by simp
    qed
    then have vm: "v = mag" by (simp add: v_def)
    have "131 \<le> e"
    proof (rule ccontr)
      assume "\<not> 131 \<le> e"
      then have "e \<le> 130" by simp
      then have "mag < 16" unfolding mag_def using fin(3) by (rule small_exponent_below_16)
      with a vm show False by simp
    qed
    then obtain n :: nat where "mag = real n / 2 ^ 19"
      unfolding mag_def using large_exponent_grid by blast
    with a vm show "7205759403792794 / 2 ^ 48 \<le> v"
      using grid_step_over_25_6 [of n] by simp
  qed
  then show ?thesis
    by (simp add: float_ge_double_def decode64_lit_25_6 dv)
qed

lemma float_gt_lit_40_0:
  "float_gt_double x lit_40_0 = fp_gt (decode32 x) (Fin 40)"
  by (simp add: float_gt_double_def decode64_lit_40_0)

lemma pins_controlLEDs:
  "pins (controlLEDs s) =
     (pins s)(TEMP_LED_PIN := (if float_ge_double (temperature s) lit_25_6 then HIGH else LOW),
              HUM_LED_PIN := (if float_gt_double (humidity s) lit_40_0 then HIGH else LOW),
              SOUND_LED_PIN := (if 200 \<le> sint (soundValue s) then HIGH else LOW))"
  by (simp add: controlLEDs_def digitalWrite_def emit_def Let_def)

lemma lit_25_6_is_nearest_double:
  "decode64 lit_25_6 = Fin (7205759403792794 / 2 ^ 48) \<and>
   \<bar>7205759403792794 / 2 ^ 48 - 256 / 10\<bar> \<le> (1 / 2 ^ 49 :: real)"
  by (simp add: decode64_lit_25_6)

lemma float_25_6_is_nearest_float:
  "decode32 0x41CCCCCD = Fin (13421773 / 2 ^ 19) \<and>
   \<bar>13421773 / 2 ^ 19 - 256 / 10\<bar> \<le> (1 / 2 ^ 20 :: real)"
  by (simp add: decode32_def)

lemma decode32_26: "decode32 0x41D00000 = Fin 26"
  by (simp add: decode32_def)

lemma decode32_35: "decode32 0x420C0000 = Fin 35"
  by (simp add: decode32_def)

lemma decode32_nan: "decode32 0x7FC00000 = NaN"
  by (simp add: decode32_def)

text \<open>
  C1. For every reading, \<^verbatim>\<open>controlLEDs\<close> sets the temperature LED high exactly when the
  temperature is at least 25.6, the humidity LED high exactly when the humidity is greater
  than 40.0, and the sound LED high exactly when the sound value is at least 200. A NaN
  compares false, so its LED is low. At the boundary reading (the \<^verbatim>\<open>float\<close> nearest to 25.6,
  the \<^verbatim>\<open>float\<close> 40.0, sound 200) the LEDs are high, low, high.
\<close>

theorem thresholds_drive_leds:
  "(pins (controlLEDs s) TEMP_LED_PIN = HIGH) = fp_ge (decode32 (temperature s)) (Fin (256 / 10)) \<and>
   (pins (controlLEDs s) HUM_LED_PIN = HIGH) = fp_gt (decode32 (humidity s)) (Fin 40) \<and>
   (pins (controlLEDs s) SOUND_LED_PIN = HIGH) = (200 \<le> sint (soundValue s)) \<and>
   leds (controlLEDs (s\<lparr>temperature := 0x41CCCCCD, humidity := 0x42200000, soundValue := 200\<rparr>))
     = (HIGH, LOW, HIGH)"
proof -
  have t: "(pins (controlLEDs s) TEMP_LED_PIN = HIGH) = fp_ge (decode32 (temperature s)) (Fin (256 / 10))"
    by (simp add: pins_controlLEDs pin_defs float_ge_lit_25_6)
  have h: "(pins (controlLEDs s) HUM_LED_PIN = HIGH) = fp_gt (decode32 (humidity s)) (Fin 40)"
    by (simp add: pins_controlLEDs pin_defs float_gt_lit_40_0)
  have n: "(pins (controlLEDs s) SOUND_LED_PIN = HIGH) = (200 \<le> sint (soundValue s))"
    by (simp add: pins_controlLEDs pin_defs)
  have d1: "decode32 0x41CCCCCD = Fin (13421773 / 2 ^ 19)" by (simp add: decode32_def)
  have d2: "decode32 0x42200000 = Fin 40" by (simp add: decode32_def)
  have b: "leds (controlLEDs (s\<lparr>temperature := 0x41CCCCCD, humidity := 0x42200000, soundValue := 200\<rparr>))
     = (HIGH, LOW, HIGH)"
    by (simp add: leds_def pins_controlLEDs pin_defs float_ge_lit_25_6 float_gt_lit_40_0 d1 d2)
  from t h n b show ?thesis by simp
qed

theorem thresholds_drive_leds_witness:
  "pins (controlLEDs scenario_A) TEMP_LED_PIN = HIGH \<and>
   pins (controlLEDs scenario_A) HUM_LED_PIN \<noteq> HIGH \<and>
   pins (controlLEDs scenario_A) SOUND_LED_PIN \<noteq> HIGH \<and>
   leds (controlLEDs (scenario_A\<lparr>temperature := 0x41CCCCCD, humidity := 0x42200000,
                                  soundValue := 200\<rparr>)) = (HIGH, LOW, HIGH)"
proof -
  have v: "temperature scenario_A = 0x41D00000" "humidity scenario_A = 0x420C0000"
    "soundValue scenario_A = 150"
    by (simp_all add: scenario_A_def boot_state_def)
  have n: "sint (150 :: 32 word) = 150" by simp
  from thresholds_drive_leds [of scenario_A] show ?thesis
    by (simp add: v decode32_26 decode32_35 n)
qed

section \<open>The sensor reads\<close>

text \<open>
  C10. \<^verbatim>\<open>readDHTData\<close> assigns \<^verbatim>\<open>temperature\<close> and \<^verbatim>\<open>humidity\<close> and leaves \<^verbatim>\<open>soundValue\<close> as it
  was; \<^verbatim>\<open>readSoundLevel\<close> assigns \<^verbatim>\<open>soundValue\<close> and leaves \<^verbatim>\<open>temperature\<close> and \<^verbatim>\<open>humidity\<close> as
  they were.
\<close>

theorem sensor_reads_touch_own_fields:
  "soundValue (readDHTData td hm s) = soundValue s \<and>
   temperature (readDHTData td hm s) = th_temperature td \<and>
   humidity (readDHTData td hm s) = th_humidity hm \<and>
   temperature (readSoundLevel a s) = temperature s \<and>
   humidity (readSoundLevel a s) = humidity s \<and>
   soundValue (readSoundLevel a s) = ucast a"
  by (simp add: readDHTData_def readSoundLevel_def emit_def Let_def)

theorem sensor_reads_touch_own_fields_witness:
  "soundValue (readDHTData \<lparr>th_temperature = 0x41D00000, th_humidity = 0x42480000\<rparr>
                 \<lparr>th_temperature = 0x41C80000, th_humidity = 0x420C0000\<rparr>
                 (boot_state\<lparr>soundValue := 150\<rparr>)) = 150 \<and>
   temperature (readSoundLevel 300 (boot_state\<lparr>temperature := 0x41D00000\<rparr>)) = 0x41D00000"
  using sensor_reads_touch_own_fields
    [of "\<lparr>th_temperature = 0x41D00000, th_humidity = 0x42480000\<rparr>"
        "\<lparr>th_temperature = 0x41C80000, th_humidity = 0x420C0000\<rparr>"
        "boot_state\<lparr>soundValue := 150\<rparr>"]
    sensor_reads_touch_own_fields
    [of _ _ "boot_state\<lparr>temperature := 0x41D00000\<rparr>" 300]
  by (simp add: boot_state_def)

section \<open>The reporter\<close>

lemma send_disconnected:
  "status \<noteq> WL_CONNECTED \<Longrightarrow>
   sendDataToPythonServer digits status code resp s =
     s\<lparr>trace := trace s @ [WiFiStatus, SerialPrintln ''Wi-Fi disconnected. Cannot send data.'']\<rparr>"
  by (simp add: sendDataToPythonServer_def emit_def Let_def)

lemma send_connected:
  "sendDataToPythonServer digits WL_CONNECTED code resp s =
     s\<lparr>trace := trace s @
         [WiFiStatus, HttpBegin serverURL, HttpAddHeader ''Content-Type'' ''application/json'',
          HttpPost (payload digits s)] @
         (if 0 < sint code
          then [HttpGetString, SerialPrint ''Response: '', SerialPrintln resp]
          else [SerialPrint ''Error sending data: '', SerialPrintlnInt code]) @
         [HttpEnd]\<rparr>"
  by (simp add: sendDataToPythonServer_def emit_def Let_def payload_def)

lemma trace_send:
  "trace (sendDataToPythonServer digits status code resp s) =
     trace s @ new_events s (sendDataToPythonServer digits status code resp s)"
  by (cases "status = WL_CONNECTED")
     (simp_all add: send_connected send_disconnected new_events_def)

lemma payload_reading:
  "temperature s = temperature s' \<Longrightarrow> humidity s = humidity s' \<Longrightarrow> soundValue s = soundValue s'
   \<Longrightarrow> payload digits s = payload digits s'"
  by (simp add: payload_def)

lemma send_events_reading:
  assumes "temperature s = temperature s'" "humidity s = humidity s'" "soundValue s = soundValue s'"
  shows "new_events s (sendDataToPythonServer digits status code resp s) =
         new_events s' (sendDataToPythonServer digits status code resp s')"
  using payload_reading [OF assms, of digits]
  by (cases "status = WL_CONNECTED")
     (simp_all add: send_connected send_disconnected new_events_def)

lemma pins_send: "pins (sendDataToPythonServer digits status code resp s) = pins s"
  by (cases "status = WL_CONNECTED") (simp_all add: send_connected send_disconnected)

lemma new_events_send_connected:
  "new_events s (sendDataToPythonServer digits WL_CONNECTED code resp s) =
     [WiFiStatus, HttpBegin serverURL, HttpAddHeader ''Content-Type'' ''application/json'',
      HttpPost (payload digits s)] @
     (if 0 < sint code
      then [HttpGetString, SerialPrint ''Response: '', SerialPrintln resp]
      else [SerialPrint ''Error sending data: '', SerialPrintlnInt code]) @
     [HttpEnd]"
  by (simp add: send_connected new_events_def)

lemma new_events_send_disconnected:
  "status \<noteq> WL_CONNECTED \<Longrightarrow>
   new_events s (sendDataToPythonServer digits status code resp s) =
     [WiFiStatus, SerialPrintln ''Wi-Fi disconnected. Cannot send data.'']"
  by (simp add: send_disconnected new_events_def)

text \<open>
  C9. \<^verbatim>\<open>sendDataToPythonServer\<close> does not change the reading: whatever the Wi-Fi status and
  the response code, \<^verbatim>\<open>temperature\<close>, \<^verbatim>\<open>humidity\<close> and \<^verbatim>\<open>soundValue\<close> are the same after the call
  as before it.
\<close>

theorem reporter_keeps_reading:
  "temperature (sendDataToPythonServer digits status code resp s) = temperature s \<and>
   humidity (sendDataToPythonServer digits status code resp s) = humidity s \<and>
   soundValue (sendDataToPythonServer digits status code resp s) = soundValue s"
  by (cases "status = WL_CONNECTED") (simp_all add: send_connected send_disconnected)

theorem reporter_keeps_reading_witness:
  "temperature (sendDataToPythonServer scenario_digits WL_CONNECTED 200 ''ok'' scenario_A) = 0x41D00000 \<and>
   humidity (sendDataToPythonServer scenario_digits WL_CONNECTED (- 1) [] scenario_A) = 0x420C0000 \<and>
   soundValue (sendDataToPythonServer scenario_digits WL_DISCONNECTED 0 [] scenario_A) = 150"
  using reporter_keeps_reading [of scenario_digits WL_CONNECTED 200 "''ok''" scenario_A]
    reporter_keeps_reading [of scenario_digits WL_CONNECTED "- 1" "[]" scenario_A]
    reporter_keeps_reading [of scenario_digits WL_DISCONNECTED 0 "[]" scenario_A]
  by (simp add: scenario_A_def boot_state_def)

text \<open>
  C3. When \<^verbatim>\<open>WiFi.status()\<close> is anything but \<^verbatim>\<open>WL_CONNECTED\<close>, the reporter prints the line
  \<^verbatim>\<open>Wi-Fi disconnected. Cannot send data.\<close> and returns: it makes no call on the HTTP client,
  and nothing of the state but the trace changes, so the reading is kept nowhere for a later
  send.
\<close>

theorem disconnected_skips_send:
  assumes "status \<noteq> WL_CONNECTED"
  shows "sendDataToPythonServer digits status code resp s =
           s\<lparr>trace := trace s @ [WiFiStatus, SerialPrintln ''Wi-Fi disconnected. Cannot send data.'']\<rparr> \<and>
         filter is_http (new_events s (sendDataToPythonServer digits status code resp s)) = []"
proof -
  have e: "sendDataToPythonServer digits status code resp s =
           s\<lparr>trace := trace s @ [WiFiStatus, SerialPrintln ''Wi-Fi disconnected. Cannot send data.'']\<rparr>"
    using assms by (rule send_disconnected)
  then have "new_events s (sendDataToPythonServer digits status code resp s)
      = [WiFiStatus, SerialPrintln ''Wi-Fi disconnected. Cannot send data.'']"
    by (simp add: new_events_def)
  with e show ?thesis by simp
qed

theorem disconnected_skips_send_witness:
  "WL_DISCONNECTED \<noteq> WL_CONNECTED \<and>
   sendDataToPythonServer scenario_digits WL_DISCONNECTED 0 [] scenario_A =
     scenario_A\<lparr>trace := [WiFiStatus, SerialPrintln ''Wi-Fi disconnected. Cannot send data.'']\<rparr>"
proof -
  have d: "WL_DISCONNECTED \<noteq> WL_CONNECTED" by simp
  from disconnected_skips_send [OF d, of scenario_digits 0 "[]" scenario_A] show ?thesis
    by (simp add: scenario_A_def boot_state_def)
qed

section \<open>One cycle of the loop\<close>

lemma trace_controlLEDs:
  "trace (controlLEDs s) = trace s @
     [DigitalWrite TEMP_LED_PIN (if float_ge_double (temperature s) lit_25_6 then HIGH else LOW),
      DigitalWrite HUM_LED_PIN (if float_gt_double (humidity s) lit_40_0 then HIGH else LOW),
      DigitalWrite SOUND_LED_PIN (if 200 \<le> sint (soundValue s) then HIGH else LOW)]"
  by (simp add: controlLEDs_def digitalWrite_def emit_def Let_def)

lemma reading_controlLEDs:
  "temperature (controlLEDs s) = temperature s" "humidity (controlLEDs s) = humidity s"
  "soundValue (controlLEDs s) = soundValue s"
  by (simp_all add: controlLEDs_def digitalWrite_def emit_def Let_def)

lemma sensed_state:
  "temperature (readSoundLevel a (readDHTData td hm s)) = th_temperature td"
  "humidity (readSoundLevel a (readDHTData td hm s)) = th_humidity hm"
  "soundValue (readSoundLevel a (readDHTData td hm s)) = ucast a"
  "pins (readSoundLevel a (readDHTData td hm s)) = pins s"
  "trace (readSoundLevel a (readDHTData td hm s)) =
     trace s @ [DhtRead TEMP_SENSOR_PIN, DhtRead HUM_SENSOR_PIN, AnalogRead SOUND_SENSOR_PIN]"
  by (simp_all add: readDHTData_def readSoundLevel_def emit_def Let_def)

lemma new_events_loop:
  fixes i :: cycle_input
  defines "t \<equiv> th_temperature (tempData i)"
      and "h \<equiv> th_humidity (humData i)"
      and "n \<equiv> ucast (analog i)"
  shows "trace (loop digits i s) = trace s @
     [DhtRead TEMP_SENSOR_PIN, DhtRead HUM_SENSOR_PIN, AnalogRead SOUND_SENSOR_PIN] @
     [DigitalWrite TEMP_LED_PIN (if float_ge_double t lit_25_6 then HIGH else LOW),
      DigitalWrite HUM_LED_PIN (if float_gt_double h lit_40_0 then HIGH else LOW),
      DigitalWrite SOUND_LED_PIN (if 200 \<le> sint n then HIGH else LOW)] @
     log_events t h n @
     new_events (s\<lparr>temperature := t, humidity := h, soundValue := n\<rparr>)
       (sendDataToPythonServer digits (wifi_status i) (post_code i) (post_response i)
          (s\<lparr>temperature := t, humidity := h, soundValue := n\<rparr>)) @
     [Delay 15000]"
proof -
  define s2 where "s2 = readSoundLevel (analog i) (readDHTData (tempData i) (humData i) s)"
  define s3 where "s3 = controlLEDs s2"
  define s4 where "s4 = emit (log_events (temperature s3) (humidity s3) (soundValue s3)) s3"
  have r2: "temperature s2 = t" "humidity s2 = h" "soundValue s2 = n"
    by (simp_all add: s2_def sensed_state t_def h_def n_def)
  have r4: "temperature s4 = t" "humidity s4 = h" "soundValue s4 = n"
    by (simp_all add: s4_def s3_def emit_def reading_controlLEDs r2)
  have t4: "trace s4 = trace s @
     [DhtRead TEMP_SENSOR_PIN, DhtRead HUM_SENSOR_PIN, AnalogRead SOUND_SENSOR_PIN] @
     [DigitalWrite TEMP_LED_PIN (if float_ge_double t lit_25_6 then HIGH else LOW),
      DigitalWrite HUM_LED_PIN (if float_gt_double h lit_40_0 then HIGH else LOW),
      DigitalWrite SOUND_LED_PIN (if 200 \<le> sint n then HIGH else LOW)] @
     log_events t h n"
    by (simp add: s4_def s3_def emit_def reading_controlLEDs trace_controlLEDs r2)
       (simp add: s2_def sensed_state)
  have ev: "new_events s4 (sendDataToPythonServer digits (wifi_status i) (post_code i) (post_response i) s4)
      = new_events (s\<lparr>temperature := t, humidity := h, soundValue := n\<rparr>)
       (sendDataToPythonServer digits (wifi_status i) (post_code i) (post_response i)
          (s\<lparr>temperature := t, humidity := h, soundValue := n\<rparr>))"
    by (rule send_events_reading) (simp_all add: r4)
  have "loop digits i s =
      emit [Delay 15000] (sendDataToPythonServer digits (wifi_status i) (post_code i) (post_response i) s4)"
    by (simp add: loop_def Let_def s4_def s3_def s2_def log_events_def)
  then have "trace (loop digits i s) =
      trace s4 @ new_events s4 (sendDataToPythonServer digits (wifi_status i) (post_code i) (post_response i) s4)
        @ [Delay 15000]"
    by (simp add: emit_def trace_send)
  then show ?thesis by (simp only: t4 ev append_assoc)
qed

lemma pins_loop:
  "pins (loop digits i s) =
     (pins s)(TEMP_LED_PIN := (if float_ge_double (th_temperature (tempData i)) lit_25_6 then HIGH else LOW),
              HUM_LED_PIN := (if float_gt_double (th_humidity (humData i)) lit_40_0 then HIGH else LOW),
              SOUND_LED_PIN := (if 200 \<le> sint (ucast (analog i) :: 32 word) then HIGH else LOW))"
  by (simp add: loop_def Let_def emit_def pins_send pins_controlLEDs sensed_state)

lemma delays_loop:
  "filter (\<lambda>e. e = Delay 15000) (trace (loop digits i s)) =
   filter (\<lambda>e. e = Delay 15000) (trace s) @ [Delay 15000]"
proof (cases "wifi_status i = WL_CONNECTED")
  case True
  then show ?thesis
    by (simp add: new_events_loop new_events_send_connected log_events_def)
next
  case False
  then show ?thesis
    by (simp add: new_events_loop new_events_send_disconnected log_events_def)
qed

lemma cycles_snoc: "cycles digits (js @ [i]) s = loop digits i (cycles digits js s)"
  by (induction js arbitrary: s) simp_all

lemma delays_cycles:
  "filter (\<lambda>e. e = Delay 15000) (trace (cycles digits js s)) =
   filter (\<lambda>e. e = Delay 15000) (trace s) @ replicate (length js) (Delay 15000)"
proof (induction js arbitrary: s)
  case Nil
  then show ?case by simp
next
  case (Cons j js)
  show ?case
    by (simp add: Cons.IH delays_loop replicate_append_same)
qed

text \<open>
  C4. After the POST the reporter takes a response code greater than 0 as success and prints
  the response body as it received it; it prints a response code of 0 or less as an error.
  Either way it issues exactly one POST, closes the request and returns with the reading
  unchanged and stored nowhere else, and \<^verbatim>\<open>loop\<close> goes on to its \<^verbatim>\<open>delay(15000)\<close>.
\<close>

theorem response_code_handling:
  assumes "wifi_status i = WL_CONNECTED"
  shows "sendDataToPythonServer digits WL_CONNECTED code resp s =
           s\<lparr>trace := trace s @
              [WiFiStatus, HttpBegin serverURL, HttpAddHeader ''Content-Type'' ''application/json'',
               HttpPost (payload digits s)] @
              (if 0 < sint code
               then [HttpGetString, SerialPrint ''Response: '', SerialPrintln resp]
               else [SerialPrint ''Error sending data: '', SerialPrintlnInt code]) @
              [HttpEnd]\<rparr> \<and>
         length (filter is_post
           (new_events s (sendDataToPythonServer digits WL_CONNECTED code resp s))) = 1 \<and>
         (\<exists>es. trace (loop digits i s') = es @ [HttpEnd, Delay 15000])"
proof -
  have a: "length (filter is_post
           (new_events s (sendDataToPythonServer digits WL_CONNECTED code resp s))) = 1"
    by (simp add: new_events_send_connected)
  define r where "r = s'\<lparr>temperature := th_temperature (tempData i),
    humidity := th_humidity (humData i), soundValue := ucast (analog i)\<rparr>"
  have "new_events r (sendDataToPythonServer digits WL_CONNECTED (post_code i) (post_response i) r) =
      ([WiFiStatus, HttpBegin serverURL, HttpAddHeader ''Content-Type'' ''application/json'',
        HttpPost (payload digits r)] @
       (if 0 < sint (post_code i)
        then [HttpGetString, SerialPrint ''Response: '', SerialPrintln (post_response i)]
        else [SerialPrint ''Error sending data: '', SerialPrintlnInt (post_code i)])) @ [HttpEnd]"
    by (simp add: new_events_send_connected)
  then obtain pre where pre:
    "new_events r (sendDataToPythonServer digits WL_CONNECTED (post_code i) (post_response i) r)
       = pre @ [HttpEnd]"
    by blast
  have "trace (loop digits i s') =
      (trace s' @
       [DhtRead TEMP_SENSOR_PIN, DhtRead HUM_SENSOR_PIN, AnalogRead SOUND_SENSOR_PIN] @
       [DigitalWrite TEMP_LED_PIN
          (if float_ge_double (th_temperature (tempData i)) lit_25_6 then HIGH else LOW),
        DigitalWrite HUM_LED_PIN
          (if float_gt_double (th_humidity (humData i)) lit_40_0 then HIGH else LOW),
        DigitalWrite SOUND_LED_PIN
          (if 200 \<le> sint (ucast (analog i) :: 32 word) then HIGH else LOW)] @
       log_events (th_temperature (tempData i)) (th_humidity (humData i)) (ucast (analog i)) @
       pre) @ [HttpEnd, Delay 15000]"
    using pre by (simp add: new_events_loop assms r_def)
  then have "\<exists>es. trace (loop digits i s') = es @ [HttpEnd, Delay 15000]"
    by blast
  with a show ?thesis by (simp add: send_connected)
qed

theorem response_code_handling_witness:
  "wifi_status scenario_D = WL_CONNECTED \<and>
   new_events boot_state
     (sendDataToPythonServer scenario_digits WL_CONNECTED (- 1) ''ignored'' boot_state) =
     [WiFiStatus, HttpBegin serverURL, HttpAddHeader ''Content-Type'' ''application/json'',
      HttpPost (payload scenario_digits boot_state),
      SerialPrint ''Error sending data: '', SerialPrintlnInt (- 1), HttpEnd] \<and>
   new_events boot_state
     (sendDataToPythonServer scenario_digits WL_CONNECTED 200 ''ok'' boot_state) =
     [WiFiStatus, HttpBegin serverURL, HttpAddHeader ''Content-Type'' ''application/json'',
      HttpPost (payload scenario_digits boot_state),
      HttpGetString, SerialPrint ''Response: '', SerialPrintln ''ok'', HttpEnd] \<and>
   (\<exists>es. trace (loop scenario_digits scenario_D boot_state) = es @ [HttpEnd, Delay 15000])"
proof -
  have w: "wifi_status scenario_D = WL_CONNECTED" by (simp add: scenario_D_def)
  have m: "sint (- 1 :: 32 word) = - 1" by simp
  have p: "sint (200 :: 32 word) = 200" by simp
  show ?thesis
    using response_code_handling [OF w, of scenario_digits "- 1" "''ignored''" boot_state boot_state]
      response_code_handling [OF w, of scenario_digits 200 "''ok''" boot_state boot_state]
    by (simp add: w new_events_def m p)
qed

text \<open>
  C5. The LEDs after a cycle depend on the values the sensors returned and on nothing else:
  two cycles with the same sensor values end with the same LEDs, whatever the Wi-Fi status,
  the response, the digit routine and the state they started from; and the reporter writes no
  pin.
\<close>

theorem leds_ignore_network:
  assumes "th_temperature (tempData i1) = th_temperature (tempData i2)"
      and "th_humidity (humData i1) = th_humidity (humData i2)"
      and "analog i1 = analog i2"
  shows "leds (loop digits1 i1 s1) = leds (loop digits2 i2 s2) \<and>
         pins (sendDataToPythonServer digits status code resp s) = pins s"
  using assms by (simp add: leds_def pins_loop pin_defs pins_send)

theorem leds_ignore_network_witness:
  "leds (loop scenario_digits scenario_D boot_state) =
     leds (loop scenario_digits (scenario_D\<lparr>wifi_status := WL_DISCONNECTED\<rparr>) boot_state)"
proof -
  have "th_temperature (tempData scenario_D) =
      th_temperature (tempData (scenario_D\<lparr>wifi_status := WL_DISCONNECTED\<rparr>))"
    "th_humidity (humData scenario_D) =
      th_humidity (humData (scenario_D\<lparr>wifi_status := WL_DISCONNECTED\<rparr>))"
    "analog scenario_D = analog (scenario_D\<lparr>wifi_status := WL_DISCONNECTED\<rparr>)"
    by simp_all
  from leds_ignore_network [OF this] show ?thesis by simp
qed

text \<open>
  C8. Whenever the reporter opens a request with \<^verbatim>\<open>http.begin\<close>, its last call is
  \<^verbatim>\<open>http.end\<close>, for a response code above 0 and for one of 0 or less: no run of the reporter
  leaves a request open.
\<close>

theorem request_always_closed:
  assumes "HttpBegin url \<in> set (new_events s (sendDataToPythonServer digits status code resp s))"
  shows "status = WL_CONNECTED \<and>
         last (new_events s (sendDataToPythonServer digits status code resp s)) = HttpEnd \<and>
         \<not> connection_open b (new_events s (sendDataToPythonServer digits status code resp s)) \<and>
         length (filter (\<lambda>e. e = HttpEnd)
           (new_events s (sendDataToPythonServer digits status code resp s))) = 1"
proof -
  have c: "status = WL_CONNECTED"
  proof (rule ccontr)
    assume "status \<noteq> WL_CONNECTED"
    then show False using assms by (simp add: new_events_send_disconnected)
  qed
  show ?thesis
    unfolding c by (cases "0 < sint code") (simp_all add: new_events_send_connected)
qed

theorem request_always_closed_witness:
  "HttpBegin serverURL \<in> set (new_events boot_state
      (sendDataToPythonServer scenario_digits WL_CONNECTED (- 1) [] boot_state)) \<and>
   last (new_events boot_state
      (sendDataToPythonServer scenario_digits WL_CONNECTED (- 1) [] boot_state)) = HttpEnd"
proof -
  have "HttpBegin serverURL \<in> set (new_events boot_state
      (sendDataToPythonServer scenario_digits WL_CONNECTED (- 1) [] boot_state))"
    by (simp add: new_events_send_connected)
  from this request_always_closed [OF this] show ?thesis by simp
qed

lemma dec_nat_150: "dec_nat 150 = ''150''" by code_simp

lemma String_int_150: "String_int 150 = ''150''"
  by (simp add: String_int_def dec_nat_150)

lemma ucast_150: "(ucast (150 :: 16 word) :: 32 word) = 150"
  by simp

text \<open>
  C6. One call of \<^verbatim>\<open>loop\<close> does, on every input and in this order: read the two DHT sensors
  and then the microphone; write the three LEDs; print the reading; report, that is poll the
  Wi-Fi status and either begin a request, set the header, POST the body, handle the response
  code and end the request, or print the skip line; and sleep for 15000 ms. Nothing else is
  done and no step is left out. The next call follows: a run of \<open>n\<close> calls has slept \<open>n\<close> times.
\<close>

theorem loop_runs_fixed_sequence:
  "trace (loop digits i s) = trace s @
     [DhtRead TEMP_SENSOR_PIN, DhtRead HUM_SENSOR_PIN, AnalogRead SOUND_SENSOR_PIN] @
     [DigitalWrite TEMP_LED_PIN
        (if float_ge_double (th_temperature (tempData i)) lit_25_6 then HIGH else LOW),
      DigitalWrite HUM_LED_PIN
        (if float_gt_double (th_humidity (humData i)) lit_40_0 then HIGH else LOW),
      DigitalWrite SOUND_LED_PIN
        (if 200 \<le> sint (ucast (analog i) :: 32 word) then HIGH else LOW)] @
     [SerialPrint ''Temperature: '', SerialPrintFloat (th_temperature (tempData i)) 1,
      SerialPrint ('' '' @ [CHR 0xC3, CHR 0x82, CHR 0xC2, CHR 0xB0] @ ''C || Humidity: ''),
      SerialPrintFloat (th_humidity (humData i)) 1, SerialPrint '' % || Sound Level: '',
      SerialPrintlnInt (ucast (analog i))] @
     (if wifi_status i = WL_CONNECTED
      then [WiFiStatus, HttpBegin serverURL,
            HttpAddHeader ''Content-Type'' ''application/json'',
            HttpPost (payload digits
              (s\<lparr>temperature := th_temperature (tempData i),
                 humidity := th_humidity (humData i), soundValue := ucast (analog i)\<rparr>))] @
           (if 0 < sint (post_code i)
            then [HttpGetString, SerialPrint ''Response: '', SerialPrintln (post_response i)]
            else [SerialPrint ''Error sending data: '', SerialPrintlnInt (post_code i)]) @
           [HttpEnd]
      else [WiFiStatus, SerialPrintln ''Wi-Fi disconnected. Cannot send data.'']) @
     [Delay 15000] \<and>
   cycles digits (js @ [i]) s = loop digits i (cycles digits js s) \<and>
   filter (\<lambda>e. e = Delay 15000) (trace (cycles digits js s)) =
     filter (\<lambda>e. e = Delay 15000) (trace s) @ replicate (length js) (Delay 15000)"
proof -
  define r where "r = s\<lparr>temperature := th_temperature (tempData i),
    humidity := th_humidity (humData i), soundValue := ucast (analog i)\<rparr>"
  have report: "new_events r
      (sendDataToPythonServer digits (wifi_status i) (post_code i) (post_response i) r) =
     (if wifi_status i = WL_CONNECTED
      then [WiFiStatus, HttpBegin serverURL,
            HttpAddHeader ''Content-Type'' ''application/json'', HttpPost (payload digits r)] @
           (if 0 < sint (post_code i)
            then [HttpGetString, SerialPrint ''Response: '', SerialPrintln (post_response i)]
            else [SerialPrint ''Error sending data: '', SerialPrintlnInt (post_code i)]) @
           [HttpEnd]
      else [WiFiStatus, SerialPrintln ''Wi-Fi disconnected. Cannot send data.''])"
  proof (cases "wifi_status i = WL_CONNECTED")
    case True
    then show ?thesis by (simp add: new_events_send_connected)
  next
    case False
    then show ?thesis by (simp add: new_events_send_disconnected)
  qed
  have one: "trace (loop digits i s) = trace s @
     [DhtRead TEMP_SENSOR_PIN, DhtRead HUM_SENSOR_PIN, AnalogRead SOUND_SENSOR_PIN] @
     [DigitalWrite TEMP_LED_PIN
        (if float_ge_double (th_temperature (tempData i)) lit_25_6 then HIGH else LOW),
      DigitalWrite HUM_LED_PIN
        (if float_gt_double (th_humidity (humData i)) lit_40_0 then HIGH else LOW),
      DigitalWrite SOUND_LED_PIN
        (if 200 \<le> sint (ucast (analog i) :: 32 word) then HIGH else LOW)] @
     [SerialPrint ''Temperature: '', SerialPrintFloat (th_temperature (tempData i)) 1,
      SerialPrint ('' '' @ [CHR 0xC3, CHR 0x82, CHR 0xC2, CHR 0xB0] @ ''C || Humidity: ''),
      SerialPrintFloat (th_humidity (humData i)) 1, SerialPrint '' % || Sound Level: '',
      SerialPrintlnInt (ucast (analog i))] @
     new_events r
      (sendDataToPythonServer digits (wifi_status i) (post_code i) (post_response i) r) @
     [Delay 15000]"
    using new_events_loop [of digits i s] by (simp only: r_def log_events_def)
  note explicit = one [unfolded report, unfolded r_def]
  show ?thesis
    using explicit cycles_snoc [of digits js i s] delays_cycles [of digits js s]
    by (simp only: simp_thms)
qed

theorem loop_runs_fixed_sequence_witness:
  "trace (loop scenario_digits scenario_D boot_state) =
     [DhtRead 4, DhtRead 5, AnalogRead 34,
      DigitalWrite 18 HIGH, DigitalWrite 32 LOW, DigitalWrite 33 LOW,
      SerialPrint ''Temperature: '', SerialPrintFloat 0x41D00000 1,
      SerialPrint ('' '' @ [CHR 0xC3, CHR 0x82, CHR 0xC2, CHR 0xB0] @ ''C || Humidity: ''),
      SerialPrintFloat 0x420C0000 1, SerialPrint '' % || Sound Level: '',
      SerialPrintlnInt 150,
      WiFiStatus, HttpBegin ''http://192.168.137.1:5000/data'',
      HttpAddHeader ''Content-Type'' ''application/json'',
      HttpPost ''{\"temperature\":26.0,\"humidity\":35.0,\"sound\":150}'',
      SerialPrint ''Error sending data: '', SerialPrintlnInt (- 1), HttpEnd,
      Delay 15000] \<and>
   trace (loop scenario_digits (scenario_D\<lparr>wifi_status := WL_CONNECTION_LOST\<rparr>) boot_state) =
     [DhtRead 4, DhtRead 5, AnalogRead 34,
      DigitalWrite 18 HIGH, DigitalWrite 32 LOW, DigitalWrite 33 LOW,
      SerialPrint ''Temperature: '', SerialPrintFloat 0x41D00000 1,
      SerialPrint ('' '' @ [CHR 0xC3, CHR 0x82, CHR 0xC2, CHR 0xB0] @ ''C || Humidity: ''),
      SerialPrintFloat 0x420C0000 1, SerialPrint '' % || Sound Level: '',
      SerialPrintlnInt 150,
      WiFiStatus, SerialPrintln ''Wi-Fi disconnected. Cannot send data.'',
      Delay 15000] \<and>
   filter (\<lambda>e. e = Delay 15000)
     (trace (cycles scenario_digits
        [scenario_D, scenario_D\<lparr>wifi_status := WL_CONNECTION_LOST\<rparr>] boot_state)) =
     [Delay 15000, Delay 15000]"
proof -
  have body: "payload scenario_digits
      (boot_state\<lparr>temperature := 0x41D00000, humidity := 0x420C0000, soundValue := 150\<rparr>) =
      ''{\"temperature\":26.0,\"humidity\":35.0,\"sound\":150}''"
    by (simp add: payload_def String_float_def decode32_26 decode32_35 scenario_digits_def
        String_int_150)
  have m: "sint (- 1 :: 32 word) = - 1" by simp
  have n: "sint (150 :: 32 word) = 150" by simp
  have a: "trace (loop scenario_digits scenario_D boot_state) =
     [DhtRead 4, DhtRead 5, AnalogRead 34,
      DigitalWrite 18 HIGH, DigitalWrite 32 LOW, DigitalWrite 33 LOW,
      SerialPrint ''Temperature: '', SerialPrintFloat 0x41D00000 1,
      SerialPrint ('' '' @ [CHR 0xC3, CHR 0x82, CHR 0xC2, CHR 0xB0] @ ''C || Humidity: ''),
      SerialPrintFloat 0x420C0000 1, SerialPrint '' % || Sound Level: '',
      SerialPrintlnInt 150,
      WiFiStatus, HttpBegin ''http://192.168.137.1:5000/data'',
      HttpAddHeader ''Content-Type'' ''application/json'',
      HttpPost ''{\"temperature\":26.0,\"humidity\":35.0,\"sound\":150}'',
      SerialPrint ''Error sending data: '', SerialPrintlnInt (- 1), HttpEnd,
      Delay 15000]"
    using loop_runs_fixed_sequence [of scenario_digits scenario_D boot_state "[]"]
    by (simp add: scenario_D_def ucast_150 body m n pin_defs serverURL_def
        float_ge_lit_25_6 float_gt_lit_40_0 decode32_26 decode32_35)
       (simp add: boot_state_def)
  have b: "trace (loop scenario_digits (scenario_D\<lparr>wifi_status := WL_CONNECTION_LOST\<rparr>) boot_state) =
     [DhtRead 4, DhtRead 5, AnalogRead 34,
      DigitalWrite 18 HIGH, DigitalWrite 32 LOW, DigitalWrite 33 LOW,
      SerialPrint ''Temperature: '', SerialPrintFloat 0x41D00000 1,
      SerialPrint ('' '' @ [CHR 0xC3, CHR 0x82, CHR 0xC2, CHR 0xB0] @ ''C || Humidity: ''),
      SerialPrintFloat 0x420C0000 1, SerialPrint '' % || Sound Level: '',
      SerialPrintlnInt 150,
      WiFiStatus, SerialPrintln ''Wi-Fi disconnected. Cannot send data.'',
      Delay 15000]"
    using loop_runs_fixed_sequence
      [of scenario_digits "scenario_D\<lparr>wifi_status := WL_CONNECTION_LOST\<rparr>" boot_state "[]"]
    by (simp add: scenario_D_def ucast_150 n pin_defs
        float_ge_lit_25_6 float_gt_lit_40_0 decode32_26 decode32_35)
       (simp add: boot_state_def)
  have c: "filter (\<lambda>e. e = Delay 15000)
     (trace (cycles scenario_digits
        [scenario_D, scenario_D\<lparr>wifi_status := WL_CONNECTION_LOST\<rparr>] boot_state)) =
     [Delay 15000, Delay 15000]"
    using loop_runs_fixed_sequence
      [of scenario_digits scenario_D boot_state
          "[scenario_D, scenario_D\<lparr>wifi_status := WL_CONNECTION_LOST\<rparr>]"]
    by (simp add: boot_state_def numeral_2_eq_2)
  from a b c show ?thesis by simp
qed

section \<open>Connecting\<close>

lemma wait_connected_returns:
  assumes "status (k + n) = WL_CONNECTED" "\<forall>j<n. status (k + j) \<noteq> WL_CONNECTED"
  shows "wait_connected status k s =
           Some (emit (concat (replicate n [WiFiStatus, Delay 500, SerialPrint ''.'']) @ [WiFiStatus]) s)"
  using assms
proof (induction n arbitrary: k s)
  case 0
  then show ?case by (subst wait_connected.simps) simp
next
  case (Suc n)
  have nc: "status k \<noteq> WL_CONNECTED" using Suc.prems(2) by (metis add.right_neutral zero_less_Suc)
  have a: "status (Suc k + n) = WL_CONNECTED" using Suc.prems(1) by simp
  have b: "\<forall>j<n. status (Suc k + j) \<noteq> WL_CONNECTED"
  proof (intro allI impI)
    fix j assume "j < n"
    then have "Suc j < Suc n" by simp
    with Suc.prems(2) have "status (k + Suc j) \<noteq> WL_CONNECTED" by blast
    then show "status (Suc k + j) \<noteq> WL_CONNECTED" by simp
  qed
  show ?case
    by (subst wait_connected.simps) (simp add: nc Suc.IH [OF a b] emit_def)
qed

lemma wait_connected_Some:
  assumes "wait_connected status k s = Some s'"
  shows "\<exists>n. status (k + n) = WL_CONNECTED"
proof (rule wait_connected.raw_induct
    [where P = "\<lambda>status k s s'. \<exists>n. status (k + n) = WL_CONNECTED", OF _ assms])
  fix f :: "(nat \<Rightarrow> wl_status_t) \<Rightarrow> nat \<Rightarrow> state \<Rightarrow> state option"
    and status k s s'
  assume IH: "\<And>st j u y. f st j u = Some y \<Longrightarrow> \<exists>n. st (j + n) = WL_CONNECTED"
    and body: "(if status k \<noteq> WL_CONNECTED
                then f status (Suc k) (emit [WiFiStatus, Delay 500, SerialPrint ''.''] s)
                else Some (emit [WiFiStatus] s)) = Some s'"
  show "\<exists>n. status (k + n) = WL_CONNECTED"
  proof (cases "status k = WL_CONNECTED")
    case True
    then have "status (k + 0) = WL_CONNECTED" by simp
    then show ?thesis by blast
  next
    case False
    with body have "f status (Suc k) (emit [WiFiStatus, Delay 500, SerialPrint ''.''] s) = Some s'"
      by simp
    from IH [OF this] obtain n where "status (Suc k + n) = WL_CONNECTED" by blast
    then have "status (k + Suc n) = WL_CONNECTED" by simp
    then show ?thesis by blast
  qed
qed

lemma wait_connected_None:
  "(wait_connected status 0 s = None) = (\<forall>k. status k \<noteq> WL_CONNECTED)"
proof
  assume n: "wait_connected status 0 s = None"
  show "\<forall>k. status k \<noteq> WL_CONNECTED"
  proof (rule ccontr)
    assume "\<not> (\<forall>k. status k \<noteq> WL_CONNECTED)"
    then have ex: "\<exists>k. status k = WL_CONNECTED" by simp
    define m where "m = (LEAST k. status k = WL_CONNECTED)"
    have "status m = WL_CONNECTED"
      unfolding m_def using ex by (rule LeastI_ex)
    then have "status (0 + m) = WL_CONNECTED" by simp
    moreover have "\<forall>j<m. status (0 + j) \<noteq> WL_CONNECTED"
      unfolding m_def using not_less_Least by auto
    ultimately have "wait_connected status 0 s \<noteq> None"
      using wait_connected_returns [of status 0 m s] by simp
    with n show False by simp
  qed
next
  assume a: "\<forall>k. status k \<noteq> WL_CONNECTED"
  show "wait_connected status 0 s = None"
  proof (cases "wait_connected status 0 s")
    case None
    then show ?thesis .
  next
    case (Some s')
    then obtain n where "status (0 + n) = WL_CONNECTED"
      using wait_connected_Some by blast
    with a show ?thesis by simp
  qed
qed

lemma connectToWiFi_returns:
  assumes "connected_at status k"
  shows "connectToWiFi status ip s = Some (emit (connect_events k ip) s)"
proof -
  have "status (0 + k) = WL_CONNECTED" "\<forall>j<k. status (0 + j) \<noteq> WL_CONNECTED"
    using assms by (simp_all add: connected_at_def)
  from wait_connected_returns [OF this] show ?thesis
    by (simp add: connectToWiFi_def connect_events_def emit_def)
qed

lemma connectToWiFi_diverges:
  "(connectToWiFi status ip s = None) = (\<forall>k. status k \<noteq> WL_CONNECTED)"
proof -
  have "(connectToWiFi status ip s = None) =
      (wait_connected status 0
         (emit [SerialPrint ''Connecting to Wi-Fi'', WiFiBegin ssid password] s) = None)"
    by (simp add: connectToWiFi_def split: option.splits)
  then show ?thesis by (simp only: wait_connected_None)
qed

lemma connected_at_least:
  assumes "status n = WL_CONNECTED"
  shows "connected_at status (LEAST k. status k = WL_CONNECTED)"
  unfolding connected_at_def using assms not_less_Least by (auto intro: LeastI)

lemma connected_at_unique: "connected_at status k \<Longrightarrow> connected_at status k' \<Longrightarrow> k = k'"
  unfolding connected_at_def by (meson nat_neq_iff)

text \<open>
  C7. \<^verbatim>\<open>connectToWiFi\<close> returns only after a poll that reports \<^verbatim>\<open>WL_CONNECTED\<close>: it waits 500 ms
  after every other answer and polls again, without a bound on the number of polls and
  without a result that would report a failure. If no poll ever reports \<^verbatim>\<open>WL_CONNECTED\<close> the
  call does not return; if the \<open>k\<close>-th poll is the first that does, it returns after \<open>k\<close> waits.
\<close>

theorem connect_blocks_until_associated:
  "(connectToWiFi status ip s = None) = (\<forall>k. status k \<noteq> WL_CONNECTED) \<and>
   (\<forall>s'. connectToWiFi status ip s = Some s' \<longrightarrow>
      (\<exists>k. connected_at status k \<and> s' = emit (connect_events k ip) s)) \<and>
   (\<forall>k. connected_at status k \<longrightarrow>
      connectToWiFi status ip s = Some (emit (connect_events k ip) s))"
proof (intro conjI allI impI)
  show "(connectToWiFi status ip s = None) = (\<forall>k. status k \<noteq> WL_CONNECTED)"
    by (rule connectToWiFi_diverges)
next
  fix s' assume a: "connectToWiFi status ip s = Some s'"
  then have "\<not> (\<forall>k. status k \<noteq> WL_CONNECTED)"
    using connectToWiFi_diverges [of status ip s] by simp
  then obtain n where "status n = WL_CONNECTED" by blast
  then have c: "connected_at status (LEAST k. status k = WL_CONNECTED)"
    by (rule connected_at_least)
  from connectToWiFi_returns [OF c, of ip s] a
  have "s' = emit (connect_events (LEAST k. status k = WL_CONNECTED) ip) s" by simp
  with c show "\<exists>k. connected_at status k \<and> s' = emit (connect_events k ip) s" by blast
next
  fix k assume "connected_at status k"
  then show "connectToWiFi status ip s = Some (emit (connect_events k ip) s)"
    by (rule connectToWiFi_returns)
qed

theorem connect_blocks_until_associated_witness:
  "connectToWiFi never_joins 0 boot_state = None \<and>
   connected_at joins_at_third_poll 2 \<and>
   connectToWiFi joins_at_third_poll 0 boot_state =
     Some (boot_state\<lparr>trace :=
       [SerialPrint ''Connecting to Wi-Fi'', WiFiBegin ssid password,
        WiFiStatus, Delay 500, SerialPrint ''.'',
        WiFiStatus, Delay 500, SerialPrint ''.'',
        WiFiStatus, SerialPrintln (CHR 0x0A # ''Wi-Fi connected!''), SerialPrint ''IP Address: '',
        WiFiLocalIP, SerialPrintlnIP 0]\<rparr>)"
proof -
  have n: "\<forall>k. never_joins k \<noteq> WL_CONNECTED" by (simp add: never_joins_def)
  have c: "connected_at joins_at_third_poll 2"
    by (simp add: connected_at_def joins_at_third_poll_def)
  have r: "concat (replicate 2 [WiFiStatus, Delay 500, SerialPrint ''.'']) =
      [WiFiStatus, Delay 500, SerialPrint ''.'', WiFiStatus, Delay 500, SerialPrint ''.'']"
    by (simp add: numeral_2_eq_2)
  from connect_blocks_until_associated [of never_joins 0 boot_state] n
  have a: "connectToWiFi never_joins 0 boot_state = None" by simp
  from connect_blocks_until_associated [of joins_at_third_poll 0 boot_state] c
  have "connectToWiFi joins_at_third_poll 0 boot_state =
      Some (emit (connect_events 2 0) boot_state)" by blast
  then show ?thesis
    using a c by (simp add: emit_def connect_events_def r boot_state_def)
qed

section \<open>The body of the POST\<close>

lemma is_digit_digit_char: "d < 10 \<Longrightarrow> is_digit (digit_char d)"
  by (simp add: is_digit_def digit_char_def)

lemma digit_val_digit_char: "d < 10 \<Longrightarrow> digit_val (digit_char d) = d"
  by (simp add: digit_val_def digit_char_def)

lemma digit_char_0: "digit_char 0 = CHR ''0''"
  by (rule of_char_eqI [where ?'a = nat]) (simp add: digit_char_def)

lemma digit_char_zero: "d < 10 \<Longrightarrow> (digit_char d = CHR ''0'') = (d = 0)"
proof
  assume "d < 10" "digit_char d = CHR ''0''"
  then have "digit_val (digit_char d) = digit_val (CHR ''0'')" by simp
  with \<open>d < 10\<close> show "d = 0" by (simp add: digit_val_digit_char) (simp add: digit_val_def)
next
  assume "d = 0" then show "digit_char d = CHR ''0''" by (simp add: digit_char_0)
qed

lemma not_digit_chars:
  "\<not> is_digit (CHR ''.'')" "\<not> is_digit (CHR ''-'')" "\<not> is_digit (CHR '','')" "\<not> is_digit (CHR ''}'')"
  by (simp_all add: is_digit_def)

lemma is_digit_not_special:
  "is_digit c \<Longrightarrow> c \<noteq> CHR ''-''"
  by (auto simp: is_digit_def)

lemma dec_nat_digits: "dec_nat n \<noteq> [] \<and> list_all is_digit (dec_nat n)"
proof (induction n rule: dec_nat.induct)
  case (1 n)
  show ?case
  proof (cases "n < 10")
    case True
    then show ?thesis by (subst (1 2) dec_nat.simps) (simp add: is_digit_digit_char)
  next
    case False
    then show ?thesis using 1 by (subst (1 2) dec_nat.simps) (simp add: is_digit_digit_char)
  qed
qed

lemma hd_dec_nat: "hd (dec_nat n) = CHR ''0'' \<Longrightarrow> n = 0"
proof (induction n rule: dec_nat.induct)
  case (1 n)
  show ?case
  proof (cases "n < 10")
    case True
    with 1(2) show ?thesis by (subst (asm) dec_nat.simps) (simp add: digit_char_zero)
  next
    case False
    have "hd (dec_nat (n div 10)) = CHR ''0''"
      using 1(2) False dec_nat_digits [of "n div 10"]
      by (subst (asm) dec_nat.simps) simp
    with 1(1) False have "n div 10 = 0" by simp
    with False show ?thesis by simp
  qed
qed

lemma dec_nat_0: "dec_nat 0 = ''0''"
  by (subst dec_nat.simps) (simp add: digit_char_0)

lemma nat_of_digits_dec_nat: "nat_of_digits (dec_nat n) = n"
proof (induction n rule: dec_nat.induct)
  case (1 n)
  show ?case
  proof (cases "n < 10")
    case True
    then show ?thesis
      by (subst dec_nat.simps) (simp add: nat_of_digits_def digit_val_digit_char)
  next
    case False
    with 1 have "nat_of_digits (dec_nat (n div 10)) = n div 10" by simp
    then show ?thesis
      using False by (subst dec_nat.simps) (simp add: nat_of_digits_def digit_val_digit_char)
  qed
qed

lemma lex_minus_digits:
  assumes "u \<noteq> []" "is_digit (hd u)"
  shows "lex_minus (u @ r) = ([], u @ r)"
proof -
  obtain h t where u: "u = h # t" using assms(1) by (cases u) auto
  with assms(2) have "h \<noteq> CHR ''-''" by (auto dest: is_digit_not_special)
  with u show ?thesis by (simp add: lex_minus_def)
qed

lemma lex_minus_sign: "lex_minus (CHR ''-'' # r) = (''-'', r)"
  by (simp add: lex_minus_def)

lemma json_int_dec_nat: "json_int_lexeme (dec_nat n)"
proof -
  have d: "dec_nat n \<noteq> []" "list_all is_digit (dec_nat n)" using dec_nat_digits by auto
  then have "is_digit (hd (dec_nat n))" by (cases "dec_nat n") auto
  with d have lm: "lex_minus (dec_nat n) = ([], dec_nat n)"
    using lex_minus_digits [of "dec_nat n" "[]"] by simp
  show ?thesis
  proof (cases "n = 0")
    case True
    then show ?thesis by (simp add: json_int_lexeme_def dec_nat_0 lex_minus_def)
  next
    case False
    then have "hd (dec_nat n) \<noteq> CHR ''0''" using hd_dec_nat by blast
    then show ?thesis using d lm by (simp add: json_int_lexeme_def)
  qed
qed

lemma json_int_String_int: "json_int_lexeme (String_int v)"
proof (cases "sint v < 0")
  case True
  have "json_int_lexeme (dec_nat (nat (- sint v)))" by (rule json_int_dec_nat)
  moreover have "lex_minus (dec_nat (nat (- sint v))) = ([], dec_nat (nat (- sint v)))"
  proof -
    have d: "dec_nat (nat (- sint v)) \<noteq> []" "list_all is_digit (dec_nat (nat (- sint v)))"
      using dec_nat_digits by auto
    then have "is_digit (hd (dec_nat (nat (- sint v))))" by (cases "dec_nat (nat (- sint v))") auto
    with d show ?thesis using lex_minus_digits [of "dec_nat (nat (- sint v))" "[]"] by simp
  qed
  ultimately show ?thesis
    using True by (simp add: json_int_lexeme_def String_int_def lex_minus_sign)
next
  case False
  then show ?thesis by (simp add: String_int_def json_int_dec_nat)
qed

lemma int_of_String_int: "int_of_lexeme (String_int v) = sint v"
proof -
  have lm: "lex_minus (dec_nat k) = ([], dec_nat k)" for k
  proof -
    have d: "dec_nat k \<noteq> []" "list_all is_digit (dec_nat k)" using dec_nat_digits by auto
    then have "is_digit (hd (dec_nat k))" by (cases "dec_nat k") auto
    with d show ?thesis using lex_minus_digits [of "dec_nat k" "[]"] by simp
  qed
  show ?thesis
  proof (cases "sint v < 0")
    case True
    then show ?thesis
      by (simp add: int_of_lexeme_def String_int_def lex_minus_sign nat_of_digits_dec_nat)
  next
    case False
    then show ?thesis
      by (simp add: int_of_lexeme_def String_int_def lm nat_of_digits_dec_nat)
  qed
qed

lemma digits_then_stop:
  assumes "list_all is_digit t" "\<not> is_digit x"
  shows "takeWhile is_digit (t @ x # r) = t" "dropWhile is_digit (t @ x # r) = x # r"
proof -
  have all: "\<forall>y\<in>set t. is_digit y" using assms(1) by (simp add: list_all_iff)
  show "takeWhile is_digit (t @ x # r) = t"
    using all assms(2) by (simp add: takeWhile_append2)
  show "dropWhile is_digit (t @ x # r) = x # r"
    using all assms(2) by (simp add: dropWhile_append2)
qed

lemma lex_minus_split:
  "lex_minus s = (sg, u) \<Longrightarrow> s = sg @ u \<and> (sg = [] \<or> sg = ''-'')"
  by (auto simp: lex_minus_def split: list.splits if_splits)

lemma lex_int_part_shape:
  assumes "ip \<noteq> []" "list_all is_digit ip" "ip = ''0'' \<or> hd ip \<noteq> CHR ''0''" "\<not> is_digit x"
  shows "lex_int_part (ip @ x # r) = Some (ip, x # r)"
proof -
  obtain h t where ip: "ip = h # t" using assms(1) by (cases ip) auto
  show ?thesis
  proof (cases "h = CHR ''0''")
    case True
    with ip assms(3) have "t = []" by auto
    with ip True show ?thesis by (simp add: lex_int_part_def)
  next
    case False
    have "is_digit h" "list_all is_digit t" using assms(2) ip by auto
    then show ?thesis
      using False ip assms(4) digits_then_stop [of t x r] by (simp add: lex_int_part_def)
  qed
qed

lemma lex_frac_part_shape:
  assumes "fp = [] \<or> (\<exists>d. is_digit d \<and> fp = [CHR ''.'', d])"
          "\<not> is_digit c" "c \<noteq> CHR ''.''"
  shows "lex_frac_part (fp @ c # r) = Some (fp, c # r)"
proof (cases "fp = []")
  case True
  then show ?thesis using assms(3) by (simp add: lex_frac_part_def)
next
  case False
  with assms(1) obtain d where d: "is_digit d" "fp = [CHR ''.'', d]" by auto
  then show ?thesis using assms(2) by (simp add: lex_frac_part_def)
qed

lemma lex_exp_part_none:
  "c \<noteq> CHR ''e'' \<Longrightarrow> c \<noteq> CHR ''E'' \<Longrightarrow> lex_exp_part (c # r) = Some ([], c # r)"
  by (simp add: lex_exp_part_def)

lemma lex_number_shape:
  assumes sg: "sg = [] \<or> sg = ''-''"
      and ip: "ip \<noteq> []" "list_all is_digit ip" "ip = ''0'' \<or> hd ip \<noteq> CHR ''0''"
      and fp: "fp = [] \<or> (\<exists>d. is_digit d \<and> fp = [CHR ''.'', d])"
      and c: "\<not> is_digit c" "c \<noteq> CHR ''.''" "c \<noteq> CHR ''e''" "c \<noteq> CHR ''E''"
  shows "lex_number (sg @ ip @ fp @ c # r) = Some (sg @ ip @ fp, c # r)"
proof -
  have hd_digit: "is_digit (hd ip)" using ip(1,2) by (cases ip) auto
  have m: "lex_minus (sg @ ip @ fp @ c # r) = (sg, ip @ fp @ c # r)"
  proof (cases "sg = []")
    case True
    then show ?thesis
      using lex_minus_digits [OF ip(1) hd_digit, of "fp @ c # r"] by simp
  next
    case False
    with sg show ?thesis by (simp add: lex_minus_sign)
  qed
  have x: "\<exists>x r'. fp @ c # r = x # r' \<and> \<not> is_digit x"
    using fp c(1) by (auto simp: not_digit_chars)
  then obtain x r' where xr: "fp @ c # r = x # r'" "\<not> is_digit x" by blast
  have i: "lex_int_part (ip @ fp @ c # r) = Some (ip, fp @ c # r)"
    using lex_int_part_shape [OF ip xr(2), of r'] xr(1) by simp
  have f: "lex_frac_part (fp @ c # r) = Some (fp, c # r)"
    using fp c(1,2) by (rule lex_frac_part_shape)
  have e: "lex_exp_part (c # r) = Some ([], c # r)"
    using c(3,4) by (rule lex_exp_part_none)
  show ?thesis by (simp add: lex_number_def m i f e)
qed

lemma one_decimal_shape:
  assumes "one_decimal s"
  shows "\<exists>sg ip d. s = sg @ ip @ [CHR ''.'', d] \<and> (sg = [] \<or> sg = ''-'') \<and> ip \<noteq> [] \<and>
           list_all is_digit ip \<and> (ip = ''0'' \<or> hd ip \<noteq> CHR ''0'') \<and> is_digit d"
proof -
  obtain sg u where m: "lex_minus s = (sg, u)" by (cases "lex_minus s")
  then have s: "s = sg @ u" "sg = [] \<or> sg = ''-''" using lex_minus_split by auto
  define ip where "ip = takeWhile is_digit u"
  from assms m obtain d where
    rest: "dropWhile is_digit u = [CHR ''.'', d]" and d: "is_digit d"
    and z: "ip = ''0'' \<or> (ip \<noteq> [] \<and> hd u \<noteq> CHR ''0'')"
    by (auto simp: one_decimal_def ip_def split: list.splits)
  have u: "u = ip @ [CHR ''.'', d]"
    using takeWhile_dropWhile_id [of is_digit u] rest by (simp add: ip_def)
  have ne: "ip \<noteq> []" using z by auto
  then have "hd u = hd ip" using u by (cases ip) auto
  with z have z': "ip = ''0'' \<or> hd ip \<noteq> CHR ''0''" by auto
  have "list_all is_digit ip"
    unfolding ip_def list_all_iff by (auto dest: set_takeWhileD)
  with s u ne z' d show ?thesis by blast
qed

lemma json_int_shape:
  assumes "json_int_lexeme s"
  shows "\<exists>sg ip. s = sg @ ip \<and> (sg = [] \<or> sg = ''-'') \<and> ip \<noteq> [] \<and>
           list_all is_digit ip \<and> (ip = ''0'' \<or> hd ip \<noteq> CHR ''0'')"
proof -
  obtain sg u where m: "lex_minus s = (sg, u)" by (cases "lex_minus s")
  then have s: "s = sg @ u" "sg = [] \<or> sg = ''-''" using lex_minus_split by auto
  from assms m have z: "u = ''0'' \<or> (u \<noteq> [] \<and> hd u \<noteq> CHR ''0'' \<and> list_all is_digit u)"
    by (simp add: json_int_lexeme_def)
  then have "u \<noteq> []" "list_all is_digit u" "u = ''0'' \<or> hd u \<noteq> CHR ''0''"
    by (auto simp: is_digit_def)
  with s show ?thesis by blast
qed

lemma lex_number_one_decimal:
  assumes "one_decimal s" "\<not> is_digit c" "c \<noteq> CHR ''.''" "c \<noteq> CHR ''e''" "c \<noteq> CHR ''E''"
  shows "lex_number (s @ c # r) = Some (s, c # r)"
proof -
  from one_decimal_shape [OF assms(1)] obtain sg ip d where
    s: "s = sg @ ip @ [CHR ''.'', d]" and sg: "sg = [] \<or> sg = ''-''" and
    ip: "ip \<noteq> []" "list_all is_digit ip" "ip = ''0'' \<or> hd ip \<noteq> CHR ''0''" and d: "is_digit d"
    by blast
  have fp: "[CHR ''.'', d] = [] \<or> (\<exists>d'. is_digit d' \<and> [CHR ''.'', d] = [CHR ''.'', d'])"
    using d by simp
  show ?thesis
    using lex_number_shape [OF sg ip fp assms(2-5), of r] by (simp add: s)
qed

lemma lex_number_json_int:
  assumes "json_int_lexeme s" "\<not> is_digit c" "c \<noteq> CHR ''.''" "c \<noteq> CHR ''e''" "c \<noteq> CHR ''E''"
  shows "lex_number (s @ c # r) = Some (s, c # r)"
proof -
  from json_int_shape [OF assms(1)] obtain sg ip where
    s: "s = sg @ ip" and sg: "sg = [] \<or> sg = ''-''" and
    ip: "ip \<noteq> []" "list_all is_digit ip" "ip = ''0'' \<or> hd ip \<noteq> CHR ''0''"
    by blast
  have fp: "([]::string) = [] \<or> (\<exists>d'. is_digit d' \<and> [] = [CHR ''.'', d'])" by simp
  show ?thesis
    using lex_number_shape [OF sg ip fp assms(2-5), of r] by (simp add: s)
qed

lemma number_starts_visibly:
  assumes "one_decimal s \<or> json_int_lexeme s"
  shows "skip_ws (s @ r) = s @ r"
proof -
  from assms obtain sg ip t where
    s: "s = sg @ ip @ t" and sg: "sg = [] \<or> sg = ''-''" and
    ip: "ip \<noteq> []" "list_all is_digit ip"
    using one_decimal_shape [of s] json_int_shape [of s] by (metis append_Nil2)
  obtain h t' where h: "ip = h # t'" using ip(1) by (cases ip) auto
  with ip(2) have "is_digit h" by simp
  then have "\<not> is_ws h" by (auto simp: is_ws_def is_digit_def)
  moreover have "\<not> is_ws (CHR ''-'')" by (simp add: is_ws_def)
  ultimately show ?thesis
    using sg s h by (auto simp: skip_ws_def)
qed

lemma lex_string_temperature:
  "lex_string (''\"temperature\"'' @ r) = Some (''temperature'', r)"
  by (simp add: lex_string_def plain_char_def)

lemma lex_string_humidity:
  "lex_string (''\"humidity\"'' @ r) = Some (''humidity'', r)"
  by (simp add: lex_string_def plain_char_def)

lemma lex_string_sound:
  "lex_string (''\"sound\"'' @ r) = Some (''sound'', r)"
  by (simp add: lex_string_def plain_char_def)

lemma skip_ws_visible:
  "skip_ws (CHR 0x22 # r) = CHR 0x22 # r" "skip_ws (CHR '':'' # r) = CHR '':'' # r"
  "skip_ws (CHR '','' # r) = CHR '','' # r" "skip_ws (CHR ''}'' # r) = CHR ''}'' # r"
  "skip_ws (CHR ''{'' # r) = CHR ''{'' # r" "skip_ws [] = []"
  by (simp_all add: skip_ws_def is_ws_def)

lemma parse_member_field:
  assumes k: "lex_string (q @ CHR '':'' # v @ c # r) = Some (k, CHR '':'' # v @ c # r)"
          "skip_ws (q @ CHR '':'' # v @ c # r) = q @ CHR '':'' # v @ c # r"
      and v: "lex_number (v @ c # r) = Some (v, c # r)" "skip_ws (v @ c # r) = v @ c # r"
      and c: "skip_ws (c # r) = c # r"
  shows "parse_member (q @ CHR '':'' # v @ c # r) = Some ((k, v), c # r)"
  by (simp add: parse_member_def k v c skip_ws_visible)

lemma parse_payload_text:
  assumes t: "one_decimal tS" and h: "one_decimal hS" and n: "json_int_lexeme nS"
  shows "parse_json_object
           (''{'' @ (''\"temperature\":'' @ tS @ '','') @ (''\"humidity\":'' @ hS @ '','')
              @ (''\"sound\":'' @ nS) @ ''}'')
         = Some [(''temperature'', tS), (''humidity'', hS), (''sound'', nS)]"
proof -
  define r3 :: string where "r3 = []"
  define r2 where "r2 = ''\"sound\"'' @ CHR '':'' # nS @ CHR ''}'' # r3"
  define r1 where "r1 = ''\"humidity\"'' @ CHR '':'' # hS @ CHR '','' # r2"
  define r0 where "r0 = ''\"temperature\"'' @ CHR '':'' # tS @ CHR '','' # r1"
  have whole: "''{'' @ (''\"temperature\":'' @ tS @ '','') @ (''\"humidity\":'' @ hS @ '','')
              @ (''\"sound\":'' @ nS) @ ''}'' = CHR ''{'' # r0"
    by (simp add: r0_def r1_def r2_def r3_def)
  have m3: "parse_member r2 = Some ((''sound'', nS), CHR ''}'' # r3)"
    unfolding r2_def
  proof (rule parse_member_field)
    show "lex_string (''\"sound\"'' @ CHR '':'' # nS @ CHR ''}'' # r3) = Some (''sound'', CHR '':'' # nS @ CHR ''}'' # r3)"
      by (rule lex_string_sound)
    show "skip_ws (''\"sound\"'' @ CHR '':'' # nS @ CHR ''}'' # r3) = ''\"sound\"'' @ CHR '':'' # nS @ CHR ''}'' # r3"
      by (simp add: skip_ws_visible)
    show "lex_number (nS @ CHR ''}'' # r3) = Some (nS, CHR ''}'' # r3)"
      using n by (rule lex_number_json_int) (simp_all add: is_digit_def)
    show "skip_ws (nS @ CHR ''}'' # r3) = nS @ CHR ''}'' # r3"
      using n by (simp add: number_starts_visibly)
    show "skip_ws (CHR ''}'' # r3) = CHR ''}'' # r3" by (simp add: skip_ws_visible)
  qed
  have m2: "parse_member r1 = Some ((''humidity'', hS), CHR '','' # r2)"
    unfolding r1_def
  proof (rule parse_member_field)
    show "lex_string (''\"humidity\"'' @ CHR '':'' # hS @ CHR '','' # r2) = Some (''humidity'', CHR '':'' # hS @ CHR '','' # r2)"
      by (rule lex_string_humidity)
    show "skip_ws (''\"humidity\"'' @ CHR '':'' # hS @ CHR '','' # r2) = ''\"humidity\"'' @ CHR '':'' # hS @ CHR '','' # r2"
      by (simp add: skip_ws_visible)
    show "lex_number (hS @ CHR '','' # r2) = Some (hS, CHR '','' # r2)"
      using h by (rule lex_number_one_decimal) (simp_all add: is_digit_def)
    show "skip_ws (hS @ CHR '','' # r2) = hS @ CHR '','' # r2"
      using h by (simp add: number_starts_visibly)
    show "skip_ws (CHR '','' # r2) = CHR '','' # r2" by (simp add: skip_ws_visible)
  qed
  have m1: "parse_member r0 = Some ((''temperature'', tS), CHR '','' # r1)"
    unfolding r0_def
  proof (rule parse_member_field)
    show "lex_string (''\"temperature\"'' @ CHR '':'' # tS @ CHR '','' # r1) = Some (''temperature'', CHR '':'' # tS @ CHR '','' # r1)"
      by (rule lex_string_temperature)
    show "skip_ws (''\"temperature\"'' @ CHR '':'' # tS @ CHR '','' # r1) = ''\"temperature\"'' @ CHR '':'' # tS @ CHR '','' # r1"
      by (simp add: skip_ws_visible)
    show "lex_number (tS @ CHR '','' # r1) = Some (tS, CHR '','' # r1)"
      using t by (rule lex_number_one_decimal) (simp_all add: is_digit_def)
    show "skip_ws (tS @ CHR '','' # r1) = tS @ CHR '','' # r1"
      using t by (simp add: number_starts_visibly)
    show "skip_ws (CHR '','' # r1) = CHR '','' # r1" by (simp add: skip_ws_visible)
  qed
  have p3: "parse_members r2 = Some [(''sound'', nS)]"
    by (subst parse_members.simps) (simp add: m3 r3_def skip_ws_visible)
  have p2: "parse_members r1 = Some [(''humidity'', hS), (''sound'', nS)]"
    by (subst parse_members.simps) (simp add: m2 p3)
  have p1: "parse_members r0 = Some [(''temperature'', tS), (''humidity'', hS), (''sound'', nS)]"
    by (subst parse_members.simps) (simp add: m1 p2)
  have start: "skip_ws r0 = r0" by (simp add: r0_def skip_ws_visible)
  have "parse_json_object (CHR ''{'' # r0) = parse_members r0"
    using start by (simp add: parse_json_object_def skip_ws_visible r0_def)
  with p1 whole show ?thesis by simp
qed

lemma String_float_finite: "is_finite32 x \<Longrightarrow> String_float digits x n = digits x n"
  by (auto simp: is_finite32_def String_float_def split: fpval.splits)

lemma payload_text:
  "payload digits s =
     ''{'' @ (''\"temperature\":'' @ String_float digits (temperature s) 1 @ '','') @
     (''\"humidity\":'' @ String_float digits (humidity s) 1 @ '','') @
     (''\"sound\":'' @ String_int (soundValue s)) @ ''}''"
  by (simp add: payload_def)

text \<open>
  When both values are finite and the core writes each with one digit after the decimal
  point, the body is the text \<^verbatim>\<open>{"temperature":T,"humidity":H,"sound":N}\<close> and reads back as
  the three members \<^verbatim>\<open>temperature\<close>, \<^verbatim>\<open>humidity\<close> and \<^verbatim>\<open>sound\<close>; \<open>N\<close> is an integer text whose
  value is \<^verbatim>\<open>soundValue\<close>. What the core writes is not part of the sketch and is assumed here.
\<close>

lemma payload_reads_back_when_rendered:
  assumes "is_finite32 (temperature s)" "is_finite32 (humidity s)"
      and "one_decimal (digits (temperature s) 1)" "one_decimal (digits (humidity s) 1)"
  shows "payload digits s =
           ''{\"temperature\":'' @ digits (temperature s) 1 @
           '',\"humidity\":'' @ digits (humidity s) 1 @
           '',\"sound\":'' @ String_int (soundValue s) @ ''}'' \<and>
         parse_json_object (payload digits s) =
           Some [(''temperature'', digits (temperature s) 1),
                 (''humidity'', digits (humidity s) 1),
                 (''sound'', String_int (soundValue s))] \<and>
         json_int_lexeme (String_int (soundValue s)) \<and>
         int_of_lexeme (String_int (soundValue s)) = sint (soundValue s)"
proof -
  have t: "String_float digits (temperature s) 1 = digits (temperature s) 1"
    using assms(1) by (rule String_float_finite)
  have h: "String_float digits (humidity s) 1 = digits (humidity s) 1"
    using assms(2) by (rule String_float_finite)
  have a: "payload digits s =
           ''{\"temperature\":'' @ digits (temperature s) 1 @
           '',\"humidity\":'' @ digits (humidity s) 1 @
           '',\"sound\":'' @ String_int (soundValue s) @ ''}''"
    unfolding payload_text t h by simp
  have b: "parse_json_object (payload digits s) =
           Some [(''temperature'', digits (temperature s) 1),
                 (''humidity'', digits (humidity s) 1),
                 (''sound'', String_int (soundValue s))]"
    unfolding payload_text t h
    using assms(3,4) json_int_String_int by (rule parse_payload_text)
  from a b json_int_String_int int_of_String_int show ?thesis by blast
qed

text \<open>
  A body in which the temperature is written \<^verbatim>\<open>nan\<close> is never read as JSON, whatever follows:
  the reader finds no number after the first colon.
\<close>

lemma nan_temperature_is_not_json:
  assumes "decode32 (temperature s) = NaN"
  shows "parse_json_object (payload digits s) = None"
proof -
  define r where "r = '',\"humidity\":'' @ String_float digits (humidity s) 1 @
    '',\"sound\":'' @ String_int (soundValue s) @ ''}''"
  have p: "payload digits s = ''{\"temperature\":nan'' @ r"
    using assms by (simp add: payload_def String_float_def r_def)
  have n: "lex_number (''nan'' @ r) = None"
    by (simp add: lex_number_def lex_minus_def lex_int_part_def is_digit_def)
  have m: "parse_member (''\"temperature\":nan'' @ r) = None"
    using n by (simp add: parse_member_def lex_string_def plain_char_def skip_ws_def is_ws_def)
  have "parse_members (''\"temperature\":nan'' @ r) = None"
    using m by (subst parse_members.simps) simp
  then show ?thesis
    unfolding p by (simp add: parse_json_object_def skip_ws_def is_ws_def)
qed

text \<open>
  C2. The claim asks that for every reading the body of the POST is a JSON object with the
  three numeric members \<^verbatim>\<open>temperature\<close>, \<^verbatim>\<open>humidity\<close> and \<^verbatim>\<open>sound\<close> that a JSON reader recovers.
  The sketch does not do that for the reading a failed sensor read leaves behind: with both
  values NaN and a sound level of 150 the body is
  \<^verbatim>\<open>{"temperature":nan,"humidity":nan,"sound":150}\<close>, whatever the digit routine, and the reader
  rejects it.
\<close>

theorem nan_reading_payload_is_not_json:
  "payload digits nan_reading = ''{\"temperature\":nan,\"humidity\":nan,\"sound\":150}'' \<and>
   parse_json_object (payload digits nan_reading) = None"
proof -
  have p: "payload digits nan_reading = ''{\"temperature\":nan,\"humidity\":nan,\"sound\":150}''"
    by (simp add: payload_def nan_reading_def boot_state_def String_float_def decode32_nan
        String_int_150)
  have "parse_json_object ''{\"temperature\":nan,\"humidity\":nan,\"sound\":150}'' = None"
    by code_simp
  with p show ?thesis by simp
qed

end
